theory Spec2Isabelle
  imports Complex_Main "HOL-Library.Sublist"
begin

section \<open>Conventions\<close>

text \<open>
  The repository is TypeScript. A JavaScript string is modelled as a \<open>string\<close> whose
  elements stand for the UTF-16 code units that \<open>length\<close>, \<open>substring\<close>, \<open>split\<close> and
  \<open>join\<close> count. Row counts, row identifiers and millisecond timestamps are \<open>int\<close> or
  \<open>nat\<close>: they are whole numbers far below \<open>2 ^ 53\<close>, where JavaScript and SQLite are
  exact. The usage numbers of a turn (token counts and cost) are added up by SQLite,
  so they are modelled as what they are, IEEE doubles (\<open>double\<close>) that sql.js binds
  as INTEGER or REAL. A \<open>Type.Number\<close> parameter of a tool, which is only compared and
  turned into text, is a \<open>real\<close>. \<open>null\<close> and \<open>undefined\<close> are \<open>None\<close>.
  Built-ins of the platform whose meaning is not in the repository (regular
  expression matching, \<open>trim\<close>, number formatting, \<open>encodeURIComponent\<close>) are
  parameters of the functions that call them.
\<close>

text \<open>\<open>Array.prototype.join\<close>.\<close>

fun join :: "string \<Rightarrow> string list \<Rightarrow> string" where
  "join sep [] = []"
| "join sep [x] = x"
| "join sep (x # y # ys) = x @ sep @ join sep (y # ys)"

section \<open>Activity recorder (pi/extensions/recorder/recorder.ts)\<close>

subsection \<open>Numbers as JavaScript, sql.js and SQLite treat them\<close>

text \<open>
  A finite double: \<open>Double m e\<close> is the number \<open>m * 2 ^ e\<close>, with \<open>\<bar>m\<bar> < 2 ^ 53\<close> for a number
  that comes from JavaScript. NaN, the infinities, the sign of zero and the bounds of
  the exponent are outside the model.
\<close>

datatype double = Double int int


text \<open>The number of binary digits of a natural number.\<close>

fun bits :: "nat \<Rightarrow> nat" where
  "bits n = (if n = 0 then 0 else Suc (bits (n div 2)))"

declare bits.simps [simp del]

text \<open>
  Rounding a whole number to 53 significant binary digits, to the nearest and on a
  tie to the even one: what a double can hold of it.
\<close>

definition round53 :: "int \<Rightarrow> int" where
  "round53 a =
     (let n = nat \<bar>a\<bar>; k = bits n
      in if k \<le> 53 then a
         else (let s = k - 53; q = n div 2 ^ s; r = n mod 2 ^ s; h = 2 ^ (s - 1);
                   q' = (if h < r \<or> (r = h \<and> odd q) then q + 1 else q)
               in sgn a * int (q' * 2 ^ s)))"

text \<open>The sum of two doubles: the exact sum, rounded.\<close>

definition dadd :: "double \<Rightarrow> double \<Rightarrow> double" where
  "dadd x y =
     (case (x, y) of
        (Double m1 e1, Double m2 e2) \<Rightarrow>
          (let e = min e1 e2
           in Double (round53 (m1 * 2 ^ nat (e1 - e) + m2 * 2 ^ nat (e2 - e))) e))"

text \<open>Whether a double is a whole number, and which.\<close>

definition is_integer :: "double \<Rightarrow> bool" where
  "is_integer x = (case x of Double m e \<Rightarrow> 0 \<le> e \<or> 2 ^ nat (- e) dvd m)"

definition to_integer :: "double \<Rightarrow> int" where
  "to_integer x = (case x of Double m e \<Rightarrow>
     if 0 \<le> e then m * 2 ^ nat e else m div 2 ^ nat (- e))"

definition int32 :: "int \<Rightarrow> bool" where
  "int32 i = (- (2 ^ 31) \<le> i \<and> i < 2 ^ 31)"

definition int64 :: "int \<Rightarrow> bool" where
  "int64 i = (- (2 ^ 63) \<le> i \<and> i < 2 ^ 63)"

text \<open>A numeric value in SQLite: a 64-bit INTEGER or a REAL.\<close>

datatype sqlnum = SInt int | SReal double

text \<open>
  How sql.js binds a number to a statement (\<open>bindNumber\<close>): as an INTEGER when
  \<open>num === (num | 0)\<close>, that is when it is a whole number of 32 bits, and as a REAL
  otherwise. A whole number is written with exponent 0.
\<close>

definition bindNumber :: "double \<Rightarrow> sqlnum" where
  "bindNumber num =
     (if is_integer num
      then (if int32 (to_integer num) then SInt (to_integer num)
            else SReal (Double (to_integer num) 0))
      else SReal num)"

text \<open>The double SQLite takes an operand of floating-point arithmetic for.\<close>

definition realValue :: "sqlnum \<Rightarrow> double" where
  "realValue v = (case v of SInt i \<Rightarrow> Double (round53 i) 0 | SReal x \<Rightarrow> x)"

text \<open>
  SQLite's \<open>+\<close>: the sum of two INTEGERs is an INTEGER unless it overflows 64 bits;
  every other sum is the sum of the two doubles.
\<close>

definition sql_add :: "sqlnum \<Rightarrow> sqlnum \<Rightarrow> sqlnum" where
  "sql_add u v =
     (case (u, v) of
        (SInt a, SInt b) \<Rightarrow>
          if int64 (a + b) then SInt (a + b)
          else SReal (dadd (realValue u) (realValue v))
      | _ \<Rightarrow> SReal (dadd (realValue u) (realValue v)))"

text \<open>
  What a column keeps of a value. A column declared INTEGER turns a REAL that is a
  whole number strictly inside the 64-bit range into an INTEGER and keeps any other
  REAL; a column declared REAL holds a double.
\<close>

definition integer_affinity :: "sqlnum \<Rightarrow> sqlnum" where
  "integer_affinity v =
     (case v of
        SInt i \<Rightarrow> SInt i
      | SReal x \<Rightarrow>
          if is_integer x \<and> - (2 ^ 63) < to_integer x \<and> to_integer x < 2 ^ 63 - 1
          then SInt (to_integer x) else SReal x)"

definition real_affinity :: "sqlnum \<Rightarrow> double" where
  "real_affinity v = realValue v"

subsection \<open>The store: five tables\<close>

definition MAX_RESULT_SIZE :: nat where
  "MAX_RESULT_SIZE = 50 * 1024"

record session_row =
  sess_id :: string
  sess_session_file :: "string option"
  sess_cwd :: string
  sess_started_at :: int
  sess_ended_at :: "int option"
  sess_model_provider :: "string option"
  sess_model_id :: "string option"
  total_input_tokens :: sqlnum
  total_output_tokens :: sqlnum
  total_cost :: double

record turn_row =
  turn_id :: nat
  turn_session_id :: string
  turn_index :: int
  turn_started_at :: int
  turn_ended_at :: "int option"
  turn_duration_ms :: "int option"
  turn_model_provider :: "string option"
  turn_model_id :: "string option"
  input_tokens :: sqlnum
  output_tokens :: sqlnum
  cost :: double
  stop_reason :: "string option"

record tool_call_row =
  call_id :: string
  call_session_id :: string
  call_turn_id :: "nat option"
  tool_name :: string
  input_json :: "string option"
  call_started_at :: int
  call_ended_at :: "int option"
  call_duration_ms :: "int option"
  is_error :: int
  result_text :: "string option"

record message_row =
  msg_id :: nat
  msg_session_id :: string
  msg_role :: string
  msg_content :: "string option"
  msg_turn_id :: "nat option"
  msg_timestamp :: int

record model_change_row =
  change_id :: nat
  change_session_id :: string
  change_timestamp :: int
  from_provider :: "string option"
  from_model_id :: "string option"
  to_provider :: string
  to_model_id :: string

text \<open>
  A table is the list of its rows in insertion order. The three tables with an
  \<open>INTEGER PRIMARY KEY AUTOINCREMENT\<close> carry the counter SQLite keeps for them in
  \<open>sqlite_sequence\<close>. The \<open>NOT NULL\<close> columns are the fields without \<open>option\<close>; the
  token and cost columns are never given NULL by the recorder.
\<close>

record database =
  sessions :: "session_row list"
  turns :: "turn_row list"
  turns_seq :: nat
  tool_calls :: "tool_call_row list"
  messages :: "message_row list"
  messages_seq :: nat
  model_changes :: "model_change_row list"
  model_changes_seq :: nat

definition empty_database :: database where
  "empty_database =
     \<lparr>sessions = [], turns = [], turns_seq = 0, tool_calls = [], messages = [],
      messages_seq = 0, model_changes = [], model_changes_seq = 0\<rparr>"

text \<open>
  The rowid an AUTOINCREMENT table gives a new row: one more than the largest rowid
  the table has ever held (the larger of the counter and the rowids present).
\<close>

definition next_rowid :: "nat \<Rightarrow> nat list \<Rightarrow> nat" where
  "next_rowid seq ids = Suc (fold max ids seq)"

subsection \<open>The statements the recorder issues\<close>

text \<open>
  \<open>INSERT OR REPLACE INTO sessions (id, session_file, cwd, started_at, model_provider,
  model_id)\<close>: rows with the same primary key are deleted, the new row takes the
  column defaults (\<open>ended_at\<close> NULL, the three totals 0).
\<close>

definition insert_or_replace_session ::
  "string \<Rightarrow> string option \<Rightarrow> string \<Rightarrow> int \<Rightarrow> string option \<Rightarrow> string option \<Rightarrow> database \<Rightarrow> database" where
  "insert_or_replace_session sid sfile dir started provider model d =
     d\<lparr>sessions := filter (\<lambda>r. sess_id r \<noteq> sid) (sessions d) @
        [\<lparr>sess_id = sid, sess_session_file = sfile, sess_cwd = dir, sess_started_at = started,
          sess_ended_at = None, sess_model_provider = provider, sess_model_id = model,
          total_input_tokens = SInt 0, total_output_tokens = SInt 0,
          total_cost = Double 0 0\<rparr>]\<rparr>"

text \<open>\<open>UPDATE sessions SET ended_at = ? WHERE id = ?\<close>\<close>

definition update_session_ended :: "int \<Rightarrow> string \<Rightarrow> database \<Rightarrow> database" where
  "update_session_ended ended sid d =
     d\<lparr>sessions := map (\<lambda>r. if sess_id r = sid then r\<lparr>sess_ended_at := Some ended\<rparr> else r)
        (sessions d)\<rparr>"

text \<open>
  \<open>INSERT INTO turns (session_id, turn_index, started_at)\<close>, returning the store and
  the new rowid, which is what \<open>SELECT last_insert_rowid()\<close> gives right after it.
\<close>

definition insert_turn :: "string \<Rightarrow> int \<Rightarrow> int \<Rightarrow> database \<Rightarrow> database \<times> nat" where
  "insert_turn sid idx started d =
     (let rid = next_rowid (turns_seq d) (map turn_id (turns d)) in
      (d\<lparr>turns := turns d @
          [\<lparr>turn_id = rid, turn_session_id = sid, turn_index = idx, turn_started_at = started,
            turn_ended_at = None, turn_duration_ms = None, turn_model_provider = None,
            turn_model_id = None, input_tokens = SInt 0, output_tokens = SInt 0,
            cost = Double 0 0, stop_reason = None\<rparr>],
         turns_seq := rid\<rparr>, rid))"

text \<open>
  \<open>UPDATE turns SET ended_at = ?, duration_ms = ?, model_provider = ?, model_id = ?,
  input_tokens = ?, output_tokens = ?, cost = ?, stop_reason = ? WHERE id = ?\<close>, with
  the three usage numbers as JavaScript hands them over.
\<close>

definition update_turn ::
  "int \<Rightarrow> int \<Rightarrow> string option \<Rightarrow> string option \<Rightarrow> double \<Rightarrow> double \<Rightarrow> double \<Rightarrow> string option \<Rightarrow> nat
     \<Rightarrow> database \<Rightarrow> database" where
  "update_turn ended dur provider model inp outp c reason tid d =
     d\<lparr>turns := map (\<lambda>r. if turn_id r = tid
          then r\<lparr>turn_ended_at := Some ended, turn_duration_ms := Some dur,
                 turn_model_provider := provider, turn_model_id := model,
                 input_tokens := integer_affinity (bindNumber inp),
                 output_tokens := integer_affinity (bindNumber outp),
                 cost := real_affinity (bindNumber c),
                 stop_reason := reason\<rparr>
          else r) (turns d)\<rparr>"

text \<open>
  \<open>UPDATE sessions SET total_input_tokens = total_input_tokens + ?,
  total_output_tokens = total_output_tokens + ?, total_cost = total_cost + ?
  WHERE id = ?\<close>
\<close>

definition update_session_totals ::
  "double \<Rightarrow> double \<Rightarrow> double \<Rightarrow> string \<Rightarrow> database \<Rightarrow> database" where
  "update_session_totals inp outp c sid d =
     d\<lparr>sessions := map (\<lambda>r. if sess_id r = sid
          then r\<lparr>total_input_tokens :=
                   integer_affinity (sql_add (total_input_tokens r) (bindNumber inp)),
                 total_output_tokens :=
                   integer_affinity (sql_add (total_output_tokens r) (bindNumber outp)),
                 total_cost :=
                   real_affinity (sql_add (SReal (total_cost r)) (bindNumber c))\<rparr>
          else r) (sessions d)\<rparr>"

text \<open>\<open>INSERT INTO messages (session_id, role, content, [turn_id,] timestamp)\<close>\<close>

definition insert_message ::
  "string \<Rightarrow> string \<Rightarrow> string \<Rightarrow> nat option \<Rightarrow> int \<Rightarrow> database \<Rightarrow> database" where
  "insert_message sid role content tid ts d =
     (let rid = next_rowid (messages_seq d) (map msg_id (messages d)) in
      d\<lparr>messages := messages d @
          [\<lparr>msg_id = rid, msg_session_id = sid, msg_role = role, msg_content = Some content,
            msg_turn_id = tid, msg_timestamp = ts\<rparr>],
        messages_seq := rid\<rparr>)"

text \<open>
  \<open>INSERT INTO tool_calls (id, session_id, turn_id, tool_name, input_json,
  started_at)\<close>. The id is the primary key: when a row with it is there already the
  statement fails, \<open>safeRun\<close> logs the error and the table is as it was.
\<close>

definition insert_tool_call ::
  "string \<Rightarrow> string \<Rightarrow> nat option \<Rightarrow> string \<Rightarrow> string option \<Rightarrow> int \<Rightarrow> database \<Rightarrow> database" where
  "insert_tool_call cid sid tid name inp started d =
     (if cid \<in> set (map call_id (tool_calls d)) then d
      else d\<lparr>tool_calls := tool_calls d @
          [\<lparr>call_id = cid, call_session_id = sid, call_turn_id = tid, tool_name = name,
            input_json = inp, call_started_at = started, call_ended_at = None,
            call_duration_ms = None, is_error = 0, result_text = None\<rparr>]\<rparr>)"

text \<open>
  \<open>UPDATE tool_calls SET ended_at = ?, duration_ms = ?, is_error = ?, result_text = ?
  WHERE id = ?\<close>
\<close>

definition update_tool_call :: "int \<Rightarrow> int \<Rightarrow> int \<Rightarrow> string \<Rightarrow> string \<Rightarrow> database \<Rightarrow> database" where
  "update_tool_call ended dur err res cid d =
     d\<lparr>tool_calls := map (\<lambda>r. if call_id r = cid
          then r\<lparr>call_ended_at := Some ended, call_duration_ms := Some dur,
                 is_error := err, result_text := Some res\<rparr>
          else r) (tool_calls d)\<rparr>"

text \<open>
  \<open>INSERT INTO model_changes (session_id, timestamp, from_provider, from_model_id,
  to_provider, to_model_id)\<close>
\<close>

definition insert_model_change ::
  "string \<Rightarrow> int \<Rightarrow> string option \<Rightarrow> string option \<Rightarrow> string \<Rightarrow> string \<Rightarrow> database \<Rightarrow> database" where
  "insert_model_change sid ts fp fm tp tm d =
     (let rid = next_rowid (model_changes_seq d) (map change_id (model_changes d)) in
      d\<lparr>model_changes := model_changes d @
          [\<lparr>change_id = rid, change_session_id = sid, change_timestamp = ts,
            from_provider = fp, from_model_id = fm, to_provider = tp, to_model_id = tm\<rparr>],
        model_changes_seq := rid\<rparr>)"

subsection \<open>Process state and the world outside\<close>

text \<open>
  What \<open>new sqljs.Database(data)\<close> gives: a connection to the five tables
  (\<open>Tables\<close>), or, opened on bytes that are not a database, a connection on which
  every statement fails (\<open>Unusable\<close>); the constructor itself does not look at the
  bytes. The file \<open>~/.pi/agent/recorder.db\<close> holds the image of a database with the
  five tables, or other bytes (not none: SQLite takes an empty file for an empty
  database, which is \<open>Image empty_database\<close>). A database file with other tables or
  other columns is outside the model.
\<close>

datatype store = Unusable | Tables database

datatype db_file = NotADatabase | Image database

definition new_Database :: "db_file option \<Rightarrow> store" where
  "new_Database data =
     (case data of
        None \<Rightarrow> Tables empty_database
      | Some (Image d) \<Rightarrow> Tables d
      | Some NotADatabase \<Rightarrow> Unusable)"

text \<open>\<open>db.export()\<close>: the bytes of the store, which are the bytes it was opened on
  when it is unusable.\<close>

definition export :: "store \<Rightarrow> db_file" where
  "export st = (case st of Unusable \<Rightarrow> NotADatabase | Tables d \<Rightarrow> Image d)"

text \<open>
  The module-level variables \<open>db\<close>, \<open>SQL\<close>, \<open>sqlJsAvailable\<close> and \<open>state\<close>, and the file
  (\<open>disk\<close>, \<open>None\<close> while it does not exist). \<open>dbPath\<close> is assigned before \<open>db\<close> is,
  so \<open>db \<noteq> None\<close> stands for \<open>db && dbPath\<close>.
\<close>

record recorder =
  db :: "store option"
  SQL :: bool
  sqlJsAvailable :: bool
  disk :: "db_file option"
  sessionId :: "string option"
  currentTurnId :: "nat option"
  currentTurnStartedAt :: int
  toolCallStarts :: "string \<rightharpoonup> int"

text \<open>
  What a handler reads from outside while it runs: \<open>Date.now()\<close>, whether
  \<open>import("sql.js")\<close> succeeds, whether the directory and the file can be read
  (\<open>mkdirSync\<close>, \<open>readFileSync\<close>), and whether \<open>writeFileSync\<close> succeeds.
\<close>

record world =
  now :: int
  import_ok :: bool
  read_ok :: bool
  write_ok :: bool

text \<open>\<open>persistDatabase\<close>: a failed write is logged and the file keeps its contents.\<close>

definition persistDatabase :: "world \<Rightarrow> recorder \<Rightarrow> recorder" where
  "persistDatabase w s =
     (case db s of
        None \<Rightarrow> s
      | Some st \<Rightarrow> if write_ok w then s\<lparr>disk := Some (export st)\<rparr> else s)"

text \<open>
  \<open>safeRun\<close>: without a store it returns; a statement that fails is logged and leaves
  the store as it was. On an unusable store every statement fails; on the tables a
  statement fails as its definition above says.
\<close>

definition safeRun :: "(database \<Rightarrow> database) \<Rightarrow> recorder \<Rightarrow> recorder" where
  "safeRun statement s =
     (case db s of
        Some (Tables d) \<Rightarrow> s\<lparr>db := Some (Tables (statement d))\<rparr>
      | _ \<Rightarrow> s)"

text \<open>\<open>loadSqlJs\<close>: the state after the call, and whether it returned (or threw).\<close>

definition loadSqlJs :: "world \<Rightarrow> recorder \<Rightarrow> recorder \<times> bool" where
  "loadSqlJs w s =
     (if SQL s then (s, True)
      else if \<not> sqlJsAvailable s then (s, False)
      else if import_ok w then (s\<lparr>SQL := True\<rparr>, True)
      else (s\<lparr>sqlJsAvailable := False\<rparr>, False))"

text \<open>
  \<open>initDatabase\<close>: the state after the call, and whether it returned (or threw). It
  opens the store once: \<open>db\<close> is assigned as soon as the constructor returns, before
  \<open>db.exec(SCHEMA)\<close> runs, so when that throws (the store is unusable) \<open>db\<close> stays
  set and nothing is written. On the tables \<open>db.exec(SCHEMA)\<close> creates those that are
  missing; a \<open>database\<close> always has the five.
\<close>

definition initDatabase :: "world \<Rightarrow> recorder \<Rightarrow> recorder \<times> bool" where
  "initDatabase w s =
     (if db s \<noteq> None then (s, True)
      else case loadSqlJs w s of
        (s1, False) \<Rightarrow> (s1, False)
      | (s1, True) \<Rightarrow>
          if \<not> read_ok w then (s1, False)
          else (let s2 = s1\<lparr>db := Some (new_Database (disk s1))\<rparr>
                in if new_Database (disk s1) = Unusable then (s2, False)
                   else (persistDatabase w s2, True)))"

subsection \<open>Events\<close>

record content_item =
  item_type :: string
  item_text :: "string option"

text \<open>
  \<open>extractTextContent\<close>: its loop (\<open>texts\<close>: the text of every item of type
  \<open>"text"\<close> whose text is a non-empty string), then the join and the cap.
\<close>

fun texts :: "content_item list \<Rightarrow> string list" where
  "texts [] = []"
| "texts (item # content) =
     (case item_text item of
        Some t \<Rightarrow> if item_type item = ''text'' \<and> t \<noteq> [] then t # texts content
                  else texts content
      | None \<Rightarrow> texts content)"

definition extractTextContent :: "content_item list \<Rightarrow> string" where
  "extractTextContent content =
     (let result = join ''\<newline>'' (texts content)
      in if length result > MAX_RESULT_SIZE
         then take MAX_RESULT_SIZE result @ ''\<newline>... [truncated at 50KB]''
         else result)"

text \<open>
  What \<open>session_start\<close> reads from its context. A session that has no file is
  stored with \<open>session_file\<close> NULL, and likewise a context without a model.
\<close>

record session_ctx =
  ctx_sessionId :: string
  ctx_sessionFile :: "string option"
  ctx_cwd :: string
  ctx_model :: "(string \<times> string) option"

record input_event =
  input_text :: string

record turn_start_event =
  turnIndex :: int
  timestamp :: int

text \<open>\<open>usage?: { input?: number; output?: number; cost?: { total?: number } }\<close>\<close>

record usage =
  usage_input :: "double option"
  usage_output :: "double option"
  usage_cost_total :: "double option"

record assistant_message =
  message_provider :: "string option"
  message_model :: "string option"
  message_content :: "content_item list option"
  message_usage :: "usage option"
  message_stopReason :: "string option"

text \<open>
  \<open>JSON.stringify(event.input)\<close> of the input object: it throws (a cycle, a BigInt)
  or gives the text.
\<close>

datatype stringified = Throws | Json string

record tool_call_event =
  call_toolCallId :: string
  call_toolName :: string
  call_input :: stringified

record tool_result_event =
  result_toolCallId :: string
  result_content :: "content_item list"
  result_isError :: bool

record model_select_event =
  select_model :: "string \<times> string"
  select_previousModel :: "(string \<times> string) option"

datatype event =
    SessionStart session_ctx
  | Input input_event
  | SessionShutdown
  | TurnStart turn_start_event
  | TurnEnd assistant_message
  | ToolCall tool_call_event
  | ToolResult tool_result_event
  | ModelSelect model_select_event

subsection \<open>Handlers\<close>

text \<open>
  Each handler is run to its end before the next event is handled. The guard
  \<open>if (!db || !state.sessionId) return\<close>: the store is open and the session id is a
  non-empty string.
\<close>

definition recording :: "recorder \<Rightarrow> bool" where
  "recording s = (db s \<noteq> None \<and> (case sessionId s of None \<Rightarrow> False | Some sid \<Rightarrow> sid \<noteq> []))"

text \<open>\<open>session_start\<close>. The status line it sets in the user interface is not modelled.\<close>

definition on_session_start :: "world \<Rightarrow> session_ctx \<Rightarrow> recorder \<Rightarrow> recorder" where
  "on_session_start w ctx s =
     (case initDatabase w s of
        (s1, False) \<Rightarrow> s1
      | (s1, True) \<Rightarrow>
          (let s2 = s1\<lparr>sessionId := Some (ctx_sessionId ctx), currentTurnId := None,
                        toolCallStarts := Map.empty\<rparr>
           in persistDatabase w
                (safeRun (insert_or_replace_session (ctx_sessionId ctx)
                            (ctx_sessionFile ctx) (ctx_cwd ctx) (now w)
                            (map_option fst (ctx_model ctx)) (map_option snd (ctx_model ctx)))
                   s2)))"

text \<open>\<open>input\<close>\<close>

definition on_input :: "world \<Rightarrow> input_event \<Rightarrow> recorder \<Rightarrow> recorder" where
  "on_input w e s =
     (case (db s, sessionId s) of
        (Some st, Some sid) \<Rightarrow>
          if sid = [] then s
          else
            (let content = (if length (input_text e) > MAX_RESULT_SIZE
                            then take MAX_RESULT_SIZE (input_text e) @
                                 ''\<newline>... [truncated at 50KB]''
                            else input_text e)
             in persistDatabase w
                  (safeRun (insert_message sid ''user'' content None (now w)) s))
      | _ \<Rightarrow> s)"

text \<open>\<open>session_shutdown\<close>\<close>

definition on_session_shutdown :: "world \<Rightarrow> recorder \<Rightarrow> recorder" where
  "on_session_shutdown w s =
     (case (db s, sessionId s) of
        (Some st, Some sid) \<Rightarrow>
          if sid = [] then s
          else
            (let s1 = persistDatabase w (safeRun (update_session_ended (now w) sid) s)
             in s1\<lparr>db := None, sessionId := None\<rparr>)
      | _ \<Rightarrow> s)"

text \<open>
  \<open>turn_start\<close>. \<open>getLastInsertId\<close> gives the rowid of the row just inserted; on an
  unusable store, where no row has been inserted, it gives 0.
\<close>

definition on_turn_start :: "turn_start_event \<Rightarrow> recorder \<Rightarrow> recorder" where
  "on_turn_start e s =
     (case (db s, sessionId s) of
        (Some st, Some sid) \<Rightarrow>
          if sid = [] then s
          else
            (case st of
               Tables d \<Rightarrow>
                 (let (d1, rid) = insert_turn sid (turnIndex e) (timestamp e) d
                  in s\<lparr>currentTurnStartedAt := timestamp e, db := Some (Tables d1),
                        currentTurnId := Some rid\<rparr>)
             | Unusable \<Rightarrow>
                 s\<lparr>currentTurnStartedAt := timestamp e, currentTurnId := Some 0\<rparr>)
      | _ \<Rightarrow> s)"

text \<open>\<open>turn_end\<close>; \<open>!state.currentTurnId\<close> holds for \<open>null\<close> and for 0.\<close>

definition on_turn_end :: "world \<Rightarrow> assistant_message \<Rightarrow> recorder \<Rightarrow> recorder" where
  "on_turn_end w msg s =
     (case (db s, sessionId s, currentTurnId s) of
        (Some st, Some sid, Some tid) \<Rightarrow>
          if sid = [] \<or> tid = 0 then s
          else
            (let endedAt = now w;
                 durationMs = endedAt - currentTurnStartedAt s;
                 inputTokens = (case message_usage msg of None \<Rightarrow> Double 0 0
                                | Some u \<Rightarrow> (case usage_input u of None \<Rightarrow> Double 0 0
                                             | Some n \<Rightarrow> n));
                 outputTokens = (case message_usage msg of None \<Rightarrow> Double 0 0
                                 | Some u \<Rightarrow> (case usage_output u of None \<Rightarrow> Double 0 0
                                              | Some n \<Rightarrow> n));
                 c = (case message_usage msg of None \<Rightarrow> Double 0 0
                      | Some u \<Rightarrow> (case usage_cost_total u of None \<Rightarrow> Double 0 0
                                   | Some x \<Rightarrow> x));
                 s1 = safeRun (update_turn endedAt durationMs (message_provider msg)
                                 (message_model msg) inputTokens outputTokens c
                                 (message_stopReason msg) tid) s;
                 s2 = safeRun (update_session_totals inputTokens outputTokens c sid) s1;
                 s3 = (case message_content msg of
                         None \<Rightarrow> s2
                       | Some content \<Rightarrow>
                           (let assistantText = extractTextContent content
                            in if assistantText \<noteq> []
                               then safeRun (insert_message sid ''assistant'' assistantText
                                               (Some tid) endedAt) s2
                               else s2))
             in persistDatabase w s3)
      | _ \<Rightarrow> s)"

text \<open>
  \<open>tool_call\<close>. The start time is remembered before \<open>JSON.stringify\<close> runs, so it
  stays remembered when that throws and the handler's \<open>catch\<close> ends the call. The
  store is not written to the file here.
\<close>

definition on_tool_call :: "world \<Rightarrow> tool_call_event \<Rightarrow> recorder \<Rightarrow> recorder" where
  "on_tool_call w e s =
     (case (db s, sessionId s) of
        (Some st, Some sid) \<Rightarrow>
          if sid = [] then s
          else
            (let startedAt = now w;
                 s1 = s\<lparr>toolCallStarts := (toolCallStarts s)(call_toolCallId e \<mapsto> startedAt)\<rparr>
             in case call_input e of
                  Throws \<Rightarrow> s1
                | Json j \<Rightarrow>
                    safeRun (insert_tool_call (call_toolCallId e) sid (currentTurnId s)
                               (call_toolName e) (Some j) startedAt) s1)
      | _ \<Rightarrow> s)"

text \<open>\<open>tool_result\<close>\<close>

definition on_tool_result :: "world \<Rightarrow> tool_result_event \<Rightarrow> recorder \<Rightarrow> recorder" where
  "on_tool_result w e s =
     (case (db s, sessionId s) of
        (Some st, Some sid) \<Rightarrow>
          if sid = [] then s
          else
            (let endedAt = now w;
                 startedAt = (case toolCallStarts s (result_toolCallId e) of
                                Some t \<Rightarrow> t | None \<Rightarrow> endedAt);
                 durationMs = endedAt - startedAt;
                 s1 = s\<lparr>toolCallStarts := (toolCallStarts s)(result_toolCallId e := None)\<rparr>;
                 resultText = extractTextContent (result_content e)
             in persistDatabase w
                  (safeRun (update_tool_call endedAt durationMs
                              (if result_isError e then 1 else 0) resultText
                              (result_toolCallId e)) s1))
      | _ \<Rightarrow> s)"

text \<open>\<open>model_select\<close>\<close>

definition on_model_select :: "world \<Rightarrow> model_select_event \<Rightarrow> recorder \<Rightarrow> recorder" where
  "on_model_select w e s =
     (case (db s, sessionId s) of
        (Some st, Some sid) \<Rightarrow>
          if sid = [] then s
          else persistDatabase w
                 (safeRun (insert_model_change sid (now w)
                             (map_option fst (select_previousModel e))
                             (map_option snd (select_previousModel e))
                             (fst (select_model e)) (snd (select_model e))) s)
      | _ \<Rightarrow> s)"

text \<open>One event, and a sequence of events, each with the world it runs in.\<close>

fun step :: "world \<times> event \<Rightarrow> recorder \<Rightarrow> recorder" where
  "step (w, SessionStart ctx) s = on_session_start w ctx s"
| "step (w, Input e) s = on_input w e s"
| "step (w, SessionShutdown) s = on_session_shutdown w s"
| "step (w, TurnStart e) s = on_turn_start e s"
| "step (w, TurnEnd m) s = on_turn_end w m s"
| "step (w, ToolCall e) s = on_tool_call w e s"
| "step (w, ToolResult e) s = on_tool_result w e s"
| "step (w, ModelSelect e) s = on_model_select w e s"

fun run :: "(world \<times> event) list \<Rightarrow> recorder \<Rightarrow> recorder" where
  "run [] s = s"
| "run (x # xs) s = run xs (step x s)"

text \<open>The process as it starts: nothing loaded, no store open, \<open>f\<close> on the disk.\<close>

definition initial :: "db_file option \<Rightarrow> recorder" where
  "initial f =
     \<lparr>db = None, SQL = False, sqlJsAvailable = True, disk = f, sessionId = None,
      currentTurnId = None, currentTurnStartedAt = 0, toolCallStarts = Map.empty\<rparr>"


section \<open>What the tool extensions share\<close>

text \<open>
  A promise that rejects, or a \<open>throw\<close>, is \<open>Inl\<close> of the error; a value is \<open>Inr\<close>. What a
  tool's \<open>execute\<close> returns is \<open>{ content: [{ type: "text", text }], isError? }\<close>.
\<close>

datatype js_error = Error string

record tool_output =
  output_text :: string
  isError :: bool

text \<open>
  \<open>fetch\<close>: the request as the code builds it, and what comes back: a rejection (the
  network is down, the signal aborts) or a response, whose body \<open>response.text()\<close>
  reads or fails to read. \<open>response.ok\<close> is a status from 200 to 299.
\<close>

record request =
  req_url :: string
  req_method :: string
  req_headers :: "(string \<times> string) list"
  req_redirect :: string

record response =
  status :: nat
  statusText :: string
  setCookie :: "string list"
  location :: "string option"
  body :: "js_error + string"

definition ok :: "response \<Rightarrow> bool" where
  "ok r = (200 \<le> status r \<and> status r \<le> 299)"

text \<open>An integer in a template literal: its decimal numeral.\<close>

fun decimal :: "nat \<Rightarrow> string" where
  "decimal n =
     (if n < 10 then [''0123456789'' ! n]
      else decimal (n div 10) @ [''0123456789'' ! (n mod 10)])"

text \<open>\<open>String.prototype.split\<close> with a separator of one character.\<close>

fun split :: "char \<Rightarrow> string \<Rightarrow> string list" where
  "split sep [] = [[]]"
| "split sep (x # xs) =
     (if x = sep then [] # split sep xs
      else (case split sep xs of
              y # ys \<Rightarrow> (x # y) # ys
            | [] \<Rightarrow> [[x]]))"

section \<open>Fetch and convert (pi/extensions/jina/jina.ts, \<open>fetch_url\<close>)\<close>

text \<open>
  \<open>execute\<close> of \<open>fetch_url\<close>. There is no \<open>try\<close> in it: a rejection of \<open>fetch\<close> or of
  \<open>response.text()\<close> leaves \<open>execute\<close> as it is.
\<close>

definition fetch_url_execute ::
  "(request \<Rightarrow> js_error + response) \<Rightarrow> string \<Rightarrow> js_error + tool_output" where
  "fetch_url_execute fetch url =
     (let jinaUrl = ''https://r.jina.ai/'' @ url in
      case fetch \<lparr>req_url = jinaUrl, req_method = ''GET'',
                  req_headers = [(''Accept'', ''text/markdown'')], req_redirect = ''follow''\<rparr> of
        Inl e \<Rightarrow> Inl e
      | Inr response \<Rightarrow>
          if \<not> ok response
          then Inr \<lparr>output_text = ''Failed to fetch: '' @ decimal (status response) @ '' '' @
                                    statusText response,
                    isError = True\<rparr>
          else (case body response of
                  Inl e \<Rightarrow> Inl e
                | Inr t \<Rightarrow> Inr \<lparr>output_text = t, isError = False\<rparr>))"

section \<open>Kagi search (pi/extensions/kagi-search/kagi-search.ts)\<close>

record search_result =
  title :: string
  url :: string
  snippet :: string

record KagiClient =
  cookies :: "string list"
  sessionCookie :: string
  userAgent :: string

definition new_KagiClient :: KagiClient where
  "new_KagiClient =
     \<lparr>cookies = [], sessionCookie = [],
      userAgent = ''Mozilla/5.0 (X11; Linux x86_64) AppleWebKit/537.36''\<rparr>"

text \<open>
  \<open>authenticate\<close>: the client as the call leaves it, and the error it throws, if any.
  The cookies are assigned before the redirect is looked at, so a call that throws
  \<open>Authentication failed\<close> has assigned them too.
\<close>

definition authenticate_request :: "KagiClient \<Rightarrow> string \<Rightarrow> request" where
  "authenticate_request c token =
     \<lparr>req_url = ''https://kagi.com/html/search?token='' @ token, req_method = ''GET'',
      req_headers = [(''User-Agent'', userAgent c)], req_redirect = ''manual''\<rparr>"

definition authenticate ::
  "(request \<Rightarrow> js_error + response) \<Rightarrow> string \<Rightarrow> KagiClient \<Rightarrow> KagiClient \<times> js_error option" where
  "authenticate fetch token c =
     (case fetch (authenticate_request c token) of
        Inl e \<Rightarrow> (c, Some e)
      | Inr response \<Rightarrow>
          (let c1 = c\<lparr>cookies := map (\<lambda>ck. case split CHR '';'' ck of x # _ \<Rightarrow> x | [] \<Rightarrow> [])
                                     (setCookie response)\<rparr>;
               c2 = (case find (\<lambda>cookie. prefix ''kagi_session='' cookie) (cookies c1) of
                       None \<Rightarrow> c1
                     | Some cookie \<Rightarrow>
                         (case split CHR ''='' cookie of
                            _ # v # _ \<Rightarrow> c1\<lparr>sessionCookie := v\<rparr>
                          | _ \<Rightarrow> c1))
           in if 300 \<le> status response \<and> status response < 400 \<and>
                 (case location response of
                    None \<Rightarrow> False
                  | Some l \<Rightarrow> sublist ''/signin'' l \<or> sublist ''/welcome'' l)
              then (c2, Some (Error ''Authentication failed''))
              else (c2, None)))"

text \<open>
  The four regular expressions of \<open>search\<close>, and the tag-stripping \<open>replace\<close>:
  \<open>resultPattern\<close> gives the first group of each successive match in the page, the
  other three the first group of their first match in a block, or nothing.
\<close>

record patterns =
  resultPattern :: "string \<Rightarrow> string list"
  titlePattern :: "string \<Rightarrow> string option"
  urlPattern :: "string \<Rightarrow> string option"
  snippetPattern :: "string \<Rightarrow> string option"
  stripTags :: "string \<Rightarrow> string"

text \<open>
  The loop of \<open>search\<close>: the next match is taken first, then \<open>results.length < limit\<close>
  is tested, then the block is looked at.
\<close>

fun collect ::
  "patterns \<Rightarrow> (string \<Rightarrow> string) \<Rightarrow> real \<Rightarrow> string list \<Rightarrow> search_result list
     \<Rightarrow> search_result list" where
  "collect rx trim limit [] results = results"
| "collect rx trim limit (block # rest) results =
     (if real (length results) < limit
      then collect rx trim limit rest
             (case (titlePattern rx block, urlPattern rx block) of
                (Some titleMatch, Some urlMatch) \<Rightarrow>
                  results @
                  [\<lparr>title = trim (stripTags rx titleMatch), url = urlMatch,
                    snippet = (case snippetPattern rx block of
                                 Some snippetMatch \<Rightarrow> trim (stripTags rx snippetMatch)
                               | None \<Rightarrow> [])\<rparr>]
              | _ \<Rightarrow> results)
      else results)"

text \<open>
  \<open>search\<close>: the request it sends, and the call. \<open>encodeURIComponent\<close> throws on a
  lone surrogate. Nothing in \<open>search\<close> assigns to the client.
\<close>

definition search_request :: "KagiClient \<Rightarrow> string \<Rightarrow> request" where
  "search_request c encoded =
     \<lparr>req_url = ''https://kagi.com/html/search?q='' @ encoded, req_method = ''GET'',
      req_headers = [(''User-Agent'', userAgent c), (''Cookie'', join ''; '' (cookies c)),
                     (''Accept'', ''text/html'')],
      req_redirect = ''follow''\<rparr>"

definition search ::
  "patterns \<Rightarrow> (string \<Rightarrow> string) \<Rightarrow> (string \<Rightarrow> js_error + string)
     \<Rightarrow> (request \<Rightarrow> js_error + response) \<Rightarrow> KagiClient \<Rightarrow> string \<Rightarrow> real
     \<Rightarrow> js_error + search_result list" where
  "search rx trim encodeURIComponent fetch c query limit =
     (case encodeURIComponent query of
        Inl e \<Rightarrow> Inl e
      | Inr encoded \<Rightarrow>
          (case fetch (search_request c encoded) of
             Inl e \<Rightarrow> Inl e
           | Inr response \<Rightarrow>
               (case body response of
                  Inl e \<Rightarrow> Inl e
                | Inr html \<Rightarrow> Inr (collect rx trim limit (resultPattern rx html) []))))"

section \<open>GitHub code search (pi/extensions/github-search/github-search.ts)\<close>

record text_match =
  fragment :: string

record code_search_result =
  path :: string
  repository_fullName :: string
  result_url :: string
  textMatches :: "text_match list option"

record code_search_params =
  query :: string
  language :: "string option"
  owner :: "string option"
  repo :: "string option"
  extension :: "string option"
  filename :: "string option"
  limit :: "real option"

text \<open>
  A spawned process as the two listeners of \<open>runGhSearch\<close> see it: the \<open>error\<close> event
  (the program is not there), or \<open>close\<close> with the exit code (\<open>null\<close> after a signal)
  and what was collected from standard output and standard error.
\<close>

datatype spawned = SpawnError js_error | Closed "nat option" string string

text \<open>
  \<open>runGhSearch\<close>. \<open>spawn\<close> runs a program on its arguments; \<open>parse\<close> is \<open>JSON.parse\<close>
  read at the type the code casts to, \<open>None\<close> when it throws.
\<close>

definition gh_argv :: "string list \<Rightarrow> string list" where
  "gh_argv args = [''search'', ''code''] @ args @ [''--json'', ''path,repository,sha,url,textMatches'']"

definition runGhSearch ::
  "(string \<Rightarrow> string list \<Rightarrow> spawned) \<Rightarrow> (string \<Rightarrow> code_search_result list option)
     \<Rightarrow> string list \<Rightarrow> js_error + code_search_result list" where
  "runGhSearch spawn parse args =
     (case spawn ''gh'' (gh_argv args) of
        SpawnError err \<Rightarrow> Inl err
      | Closed code stdout stderr \<Rightarrow>
          if code \<noteq> Some 0
          then Inl (Error (if stderr \<noteq> [] then stderr
                           else ''gh exited with code '' @
                                (case code of Some n \<Rightarrow> decimal n | None \<Rightarrow> ''null'')))
          else (case parse stdout of
                  Some results \<Rightarrow> Inr results
                | None \<Rightarrow> Inl (Error (''Failed to parse gh output: '' @ stdout))))"

text \<open>\<open>formatResults\<close>: the cleaned fragments of one result, one result, the list.\<close>

definition format_fragment :: "(string \<Rightarrow> string) \<Rightarrow> string \<Rightarrow> string" where
  "format_fragment trim frag =
     (let fragment = join ''\<newline>'' (filter (\<lambda>line. length line > 0)
                        (map trim (split CHR ''\<newline>'' frag)))
      in if fragment \<noteq> [] then ''```\<newline>'' @ fragment @ ''\<newline>```\<newline>'' else [])"

definition format_result :: "(string \<Rightarrow> string) \<Rightarrow> nat \<Rightarrow> code_search_result \<Rightarrow> string" where
  "format_result trim i r =
     ''### '' @ decimal (i + 1) @ ''. '' @ repository_fullName r @ ''/'' @ path r @ ''\<newline>'' @
     ''**URL:** '' @ result_url r @ ''\<newline>'' @
     (case textMatches r of
        None \<Rightarrow> []
      | Some ms \<Rightarrow>
          if length ms > 0
          then ''**Matches:**\<newline>'' @ concat (map (\<lambda>m. format_fragment trim (fragment m)) ms)
          else []) @
     ''\<newline>''"

definition formatResults :: "(string \<Rightarrow> string) \<Rightarrow> code_search_result list \<Rightarrow> string" where
  "formatResults trim results =
     (if length results = 0 then ''No results found.''
      else trim (''Found '' @ decimal (length results) @ '' result(s):\<newline>\<newline>'' @
                 concat (map (\<lambda>(i, r). format_result trim i r)
                           (zip [0..<length results] results))))"

text \<open>
  \<open>execute\<close> of \<open>github_search_code\<close>. \<open>String\<close> is the conversion of a number to
  text; \<open>onUpdate\<close> is the error the progress callback throws, if it is there and
  throws. The arguments first, as the \<open>try\<close> block builds them.
\<close>

definition search_args :: "(real \<Rightarrow> string) \<Rightarrow> code_search_params \<Rightarrow> string list" where
  "search_args String params =
     [query params] @
     (case language params of Some v \<Rightarrow> if v \<noteq> [] then [''--language'', v] else [] | None \<Rightarrow> []) @
     (case owner params of Some v \<Rightarrow> if v \<noteq> [] then [''--owner'', v] else [] | None \<Rightarrow> []) @
     (case repo params of Some v \<Rightarrow> if v \<noteq> [] then [''--repo'', v] else [] | None \<Rightarrow> []) @
     (case extension params of Some v \<Rightarrow> if v \<noteq> [] then [''--extension'', v] else []
      | None \<Rightarrow> []) @
     (case filename params of Some v \<Rightarrow> if v \<noteq> [] then [''--filename'', v] else []
      | None \<Rightarrow> []) @
     (let lim = min (case limit params of None \<Rightarrow> 10 | Some l \<Rightarrow> l) 100
      in [''--limit'', String lim])"

definition github_search_code_execute ::
  "(real \<Rightarrow> string) \<Rightarrow> (string \<Rightarrow> string) \<Rightarrow> (string \<Rightarrow> string list \<Rightarrow> spawned)
     \<Rightarrow> (string \<Rightarrow> code_search_result list option) \<Rightarrow> js_error option
     \<Rightarrow> code_search_params \<Rightarrow> js_error + tool_output" where
  "github_search_code_execute String trim spawn parse onUpdate params =
     (case (case onUpdate of
              Some e \<Rightarrow> Inl e
            | None \<Rightarrow> runGhSearch spawn parse (search_args String params)) of
        Inr results \<Rightarrow> Inr \<lparr>output_text = formatResults trim results, isError = False\<rparr>
      | Inl (Error msg) \<Rightarrow>
          if sublist ''gh: command not found'' msg \<or> sublist ''ENOENT'' msg
          then Inr \<lparr>output_text = ''GitHub CLI (gh) is not installed or not in PATH. Install it from https://cli.github.com/'',
                    isError = True\<rparr>
          else if sublist ''not logged in'' msg \<or> sublist ''auth login'' msg
          then Inr \<lparr>output_text = ''Not authenticated with GitHub. Run `gh auth login` to authenticate.'',
                    isError = True\<rparr>
          else Inr \<lparr>output_text = ''GitHub search failed: '' @ msg, isError = True\<rparr>)"

section \<open>Session exec (pi/extensions/jina/jina.ts, \<open>execInSession\<close>)\<close>

text \<open>
  What the event loop delivers to \<open>execInSession\<close> after it has spawned the child, in
  the order of delivery: a chunk on standard output or on standard error, the
  \<open>close\<close> event with the exit code (\<open>null\<close> after a signal), the \<open>error\<close> event, and the
  moment at which the timeout has elapsed since the call (\<open>TimeoutElapsed\<close>), which is
  when a timer set with that delay, and not cleared, fires.
\<close>

datatype child_event =
    StdoutData string
  | StderrData string
  | Close "nat option"
  | ChildError js_error
  | TimeoutElapsed

text \<open>
  The variables of the promise's executor: the two collected texts, whether
  \<open>timeoutId\<close> holds a timer that is pending, how the promise has been settled
  (\<open>Inl\<close> rejected, \<open>Inr\<close> resolved, \<open>None\<close> not yet), and the signals sent to the child
  with \<open>child.kill\<close>.
\<close>

record exec_state =
  child_stdout :: string
  child_stderr :: string
  timeoutId :: bool
  settled :: "(js_error + string) option"
  killed :: "string list"

text \<open>\<open>resolve\<close> and \<open>reject\<close>: only the first call settles the promise.\<close>

definition settle :: "js_error + string \<Rightarrow> exec_state \<Rightarrow> exec_state" where
  "settle r s = (case settled s of None \<Rightarrow> s\<lparr>settled := Some r\<rparr> | Some _ \<Rightarrow> s)"

text \<open>
  The listeners and the timer callback. \<open>String\<close> is the conversion of a number to
  text in the template literal.
\<close>

fun child_step :: "(real \<Rightarrow> string) \<Rightarrow> real option \<Rightarrow> child_event \<Rightarrow> exec_state \<Rightarrow> exec_state" where
  "child_step String timeout (StdoutData chunk) s = s\<lparr>child_stdout := child_stdout s @ chunk\<rparr>"
| "child_step String timeout (StderrData chunk) s = s\<lparr>child_stderr := child_stderr s @ chunk\<rparr>"
| "child_step String timeout TimeoutElapsed s =
     (if timeoutId s
      then settle (Inl (Error (''Execution timed out after '' @
                                (case timeout of Some t \<Rightarrow> String t | None \<Rightarrow> ''undefined'') @
                                ''ms'')))
             (s\<lparr>timeoutId := False, killed := killed s @ [''SIGTERM'']\<rparr>)
      else s)"
| "child_step String timeout (Close code) s =
     (let s1 = s\<lparr>timeoutId := False\<rparr>
      in if code \<noteq> Some 0 \<and> child_stderr s \<noteq> []
         then settle (Inl (Error (child_stderr s))) s1
         else settle (Inr (child_stdout s)) s1)"
| "child_step String timeout (ChildError e) s = settle (Inl e) (s\<lparr>timeoutId := False\<rparr>)"

text \<open>
  \<open>execInSession\<close>. \<open>spawn\<close> gives the events the call meets, from the program, its
  arguments and what is written to its standard input. The timer is set under
  \<open>if (timeout)\<close>: when a timeout is given and is not 0. The result is the state
  when the events are over; the promise is awaited for in \<open>settled\<close>.
\<close>

definition execInSession ::
  "(real \<Rightarrow> string) \<Rightarrow> (string \<Rightarrow> string list \<Rightarrow> string \<Rightarrow> child_event list)
     \<Rightarrow> string \<Rightarrow> string \<Rightarrow> real option \<Rightarrow> exec_state" where
  "execInSession String spawn session_id code timeout =
     fold (child_step String timeout) (spawn ''pexpect-cli'' [session_id] code)
       \<lparr>child_stdout = [], child_stderr = [],
        timeoutId = (case timeout of Some t \<Rightarrow> t \<noteq> 0 | None \<Rightarrow> False),
        settled = None, killed = []\<rparr>"

section \<open>Stating the properties\<close>

subsection \<open>The recorder\<close>

text \<open>
  The cap as the specification words it: a text longer than 50 KB is stored as its
  first \<open>50 * 1024\<close> characters followed by the marker, a text at or under the cap is
  stored as it is, and nothing stored is longer than cap plus marker.
\<close>

definition stored_at_cap :: "string \<Rightarrow> string \<Rightarrow> bool" where
  "stored_at_cap txt stored =
     ((length txt > 50 * 1024 \<longrightarrow>
         stored = take (50 * 1024) txt @ ''\<newline>... [truncated at 50KB]'') \<and>
      (length txt \<le> 50 * 1024 \<longrightarrow> stored = txt) \<and>
      length stored \<le> 50 * 1024 + length ''\<newline>... [truncated at 50KB]'')"

text \<open>
  The text content of a message or of a tool result, said without the recorder's
  loop: the texts of the items of type \<open>"text"\<close> that have a non-empty text, each
  ended by a line break, without the last line break.
\<close>

definition text_content :: "content_item list \<Rightarrow> string" where
  "text_content content =
     butlast (concat (map (\<lambda>item. the (item_text item) @ ''\<newline>'')
       (filter (\<lambda>item. item_type item = ''text'' \<and> item_text item \<noteq> None \<and>
                        item_text item \<noteq> Some []) content)))"

text \<open>A world in which everything outside works, and a session to start in it.\<close>

definition fair_world :: "int \<Rightarrow> world" where
  "fair_world t = \<lparr>now = t, import_ok = True, read_ok = True, write_ok = True\<rparr>"

definition session_A :: session_ctx where
  "session_A = \<lparr>ctx_sessionId = ''A'', ctx_sessionFile = Some ''a.jsonl'', ctx_cwd = ''/w'',
                 ctx_model = Some (''anthropic'', ''m1'')\<rparr>"

text \<open>
  The start time of a row is a \<open>NOT NULL\<close> column, so a row has exactly one of its
  start and end times when its end time is NULL.
\<close>

definition turn_half_filled :: "turn_row \<Rightarrow> bool" where
  "turn_half_filled r = (turn_ended_at r = None)"

definition call_half_filled :: "tool_call_row \<Rightarrow> bool" where
  "call_half_filled r = (call_ended_at r = None)"

text \<open>
  An open turn: the recorder records, \<open>t\<close> is its current turn and the turn's row is
  in the store. A recorded tool call: the recorder records and a row with the call's
  id is in the store.
\<close>

definition open_turn :: "recorder \<Rightarrow> nat \<Rightarrow> bool" where
  "open_turn s t =
     (recording s \<and> currentTurnId s = Some t \<and> t \<noteq> 0 \<and>
      (case db s of Some (Tables d) \<Rightarrow> t \<in> set (map turn_id (turns d)) | _ \<Rightarrow> False))"

definition recorded_call :: "recorder \<Rightarrow> string \<Rightarrow> bool" where
  "recorded_call s c =
     (recording s \<and>
      (case db s of Some (Tables d) \<Rightarrow> c \<in> set (map call_id (tool_calls d)) | _ \<Rightarrow> False))"

text \<open>The turn's row is in the store and no row of the turn lacks its end time.\<close>

definition turn_completed :: "recorder \<Rightarrow> nat \<Rightarrow> bool" where
  "turn_completed s t =
     (case db s of
        Some (Tables d) \<Rightarrow> t \<in> set (map turn_id (turns d)) \<and>
          list_all (\<lambda>r. turn_id r = t \<longrightarrow> \<not> turn_half_filled r) (turns d)
      | _ \<Rightarrow> False)"

definition call_completed :: "recorder \<Rightarrow> string \<Rightarrow> bool" where
  "call_completed s c =
     (case db s of
        Some (Tables d) \<Rightarrow> c \<in> set (map call_id (tool_calls d)) \<and>
          list_all (\<lambda>r. call_id r = c \<longrightarrow> \<not> call_half_filled r) (tool_calls d)
      | _ \<Rightarrow> False)"

text \<open>Events that keep the store open: all but the shutdown.\<close>

fun keeps_open :: "event \<Rightarrow> bool" where
  "keeps_open SessionShutdown = False"
| "keeps_open _ = True"















text \<open>
  A started session with a recorded tool call \<open>c\<close> and a current turn; a user
  message of 51201 characters; a tool result with two text items, of 51200
  characters and of two, and an image between them; an assistant message with the
  text items \<open>ab\<close>, an empty one and \<open>cd\<close>, and an item of another type.
\<close>

definition capped_state :: recorder where
  "capped_state =
     on_turn_start \<lparr>turnIndex = 0, timestamp = 5\<rparr>
       (on_tool_call (fair_world 4)
          \<lparr>call_toolCallId = ''c'', call_toolName = ''bash'', call_input = Json ''{}''\<rparr>
          (on_session_start (fair_world 1) session_A (initial None)))"

definition long_input :: input_event where
  "long_input = \<lparr>input_text = replicate 51201 CHR ''x''\<rparr>"

definition long_result :: tool_result_event where
  "long_result =
     \<lparr>result_toolCallId = ''c'',
      result_content = [\<lparr>item_type = ''text'', item_text = Some (replicate 51200 CHR ''x'')\<rparr>,
                        \<lparr>item_type = ''image'', item_text = None\<rparr>,
                        \<lparr>item_type = ''text'', item_text = Some ''yz''\<rparr>],
      result_isError = False\<rparr>"

definition short_message :: assistant_message where
  "short_message =
     \<lparr>message_provider = None, message_model = None,
      message_content = Some [\<lparr>item_type = ''text'', item_text = Some ''ab''\<rparr>,
                              \<lparr>item_type = ''text'', item_text = Some []\<rparr>,
                              \<lparr>item_type = ''image'', item_text = Some ''no''\<rparr>,
                              \<lparr>item_type = ''text'', item_text = Some ''cd''\<rparr>],
      message_usage = None, message_stopReason = None\<rparr>"





subsection \<open>The tool extensions\<close>

text \<open>
  Toy patterns for the Kagi page: blocks are separated by a bar, and a block has a
  title, a URL or a snippet when it holds the letter \<open>T\<close>, \<open>U\<close> or \<open>S\<close>.
\<close>

definition toy_patterns :: patterns where
  "toy_patterns =
     \<lparr>resultPattern = split CHR ''|'',
      titlePattern = (\<lambda>b. if CHR ''T'' \<in> set b then Some ''t'' else None),
      urlPattern = (\<lambda>b. if CHR ''U'' \<in> set b then Some ''u'' else None),
      snippetPattern = (\<lambda>b. if CHR ''S'' \<in> set b then Some ''s'' else None),
      stripTags = (\<lambda>s. s)\<rparr>"

definition page :: "string \<Rightarrow> response" where
  "page html = \<lparr>status = 200, statusText = ''OK'', setCookie = [], location = None,
                body = Inr html\<rparr>"

text \<open>A network that answers every request with the same response.\<close>

definition answering :: "response \<Rightarrow> request \<Rightarrow> js_error + response" where
  "answering r q = Inr r"

text \<open>
  A request carries the cookie header \<open>h\<close> when its headers named \<open>Cookie\<close> are that
  one. A network that fails every request that does not carry the cookie header
  \<open>h\<close>, and treats the others as \<open>fetch\<close> does.
\<close>

definition carries_cookie :: "string \<Rightarrow> request \<Rightarrow> bool" where
  "carries_cookie h r = (filter (\<lambda>x. fst x = ''Cookie'') (req_headers r) = [(''Cookie'', h)])"

definition only_with_cookie ::
  "string \<Rightarrow> (request \<Rightarrow> js_error + response) \<Rightarrow> request \<Rightarrow> js_error + response" where
  "only_with_cookie h fetch r =
     (if carries_cookie h r then fetch r else Inl (Error ''no such cookie header''))"

text \<open>The response of Kagi to a token: two cookies with attributes.\<close>

definition toy_login :: "request \<Rightarrow> js_error + response" where
  "toy_login r =
     Inr \<lparr>status = 200, statusText = ''OK'',
          setCookie = [''kagi_session=abc; Path=/; HttpOnly'', ''_kagi_search_=x; Secure''],
          location = None, body = Inr []\<rparr>"

text \<open>
  A process table that starts nothing but the program \<open>p\<close> on the arguments \<open>argv\<close>:
  for anything else the \<open>error\<close> event says that there is no such program.
\<close>

definition only_argv ::
  "string \<Rightarrow> string list \<Rightarrow> (string \<Rightarrow> string list \<Rightarrow> spawned) \<Rightarrow> string \<Rightarrow> string list
     \<Rightarrow> spawned" where
  "only_argv p argv spawn program args =
     (if program = p \<and> args = argv then spawn program args
      else SpawnError (Error ''spawn ENOENT''))"

text \<open>
  The limit as the claim has it: the smaller of the parameter and 100, and 10
  without the parameter. And the arguments \<open>gh\<close> is to be given for a limit
  written as \<open>limit_text\<close>: the query, a flag for every filter that is supplied and not
  empty, the limit, and the fields of the JSON output.
\<close>

definition effective_limit :: "code_search_params \<Rightarrow> real" where
  "effective_limit params = (case limit params of None \<Rightarrow> 10 | Some l \<Rightarrow> min l 100)"

definition flag :: "string \<Rightarrow> string option \<Rightarrow> string list" where
  "flag name v = (case v of None \<Rightarrow> [] | Some x \<Rightarrow> if x = [] then [] else [name, x])"

definition argv_with_limit :: "string \<Rightarrow> code_search_params \<Rightarrow> string list" where
  "argv_with_limit limit_text params =
     [''search'', ''code'', query params] @
     flag ''--language'' (language params) @ flag ''--owner'' (owner params) @
     flag ''--repo'' (repo params) @ flag ''--extension'' (extension params) @
     flag ''--filename'' (filename params) @
     [''--limit'', limit_text, ''--json'', ''path,repository,sha,url,textMatches'']"

text \<open>
  A search for TypeScript code with an empty \<open>repo\<close>, a text for the numbers 10 and
  100, and a process table in which \<open>gh\<close> finds one file when asked for 100 results
  of that search at most, and nothing when asked for 10.
\<close>

definition toy_params :: "real option \<Rightarrow> code_search_params" where
  "toy_params l =
     \<lparr>query = ''useState'', language = Some ''typescript'', owner = None, repo = Some [],
      extension = None, filename = None, limit = l\<rparr>"

definition toy_String :: "real \<Rightarrow> string" where
  "toy_String x = (if x = 100 then ''100'' else if x = 10 then ''10'' else ''?'')"

definition toy_gh :: "string \<Rightarrow> string list \<Rightarrow> spawned" where
  "toy_gh program args =
     (if program = ''gh'' \<and>
         args = [''search'', ''code'', ''useState'', ''--language'', ''typescript'',
                 ''--limit'', ''100'', ''--json'', ''path,repository,sha,url,textMatches'']
      then Closed (Some 0) ''one'' []
      else if program = ''gh'' \<and>
         args = [''search'', ''code'', ''useState'', ''--language'', ''typescript'',
                 ''--limit'', ''10'', ''--json'', ''path,repository,sha,url,textMatches'']
      then Closed (Some 0) ''none'' []
      else SpawnError (Error ''spawn ENOENT''))"

definition toy_parse :: "string \<Rightarrow> code_search_result list option" where
  "toy_parse s =
     (if s = ''one''
      then Some [\<lparr>path = ''a.ts'', repository_fullName = ''o/r'', result_url = ''u'',
                  textMatches = None\<rparr>]
      else if s = ''none'' then Some [] else None)"

text \<open>
  Events before which the call has not met the end of the child: chunks of output
  only.
\<close>

fun is_data :: "child_event \<Rightarrow> bool" where
  "is_data (StdoutData chunk) = True"
| "is_data (StderrData chunk) = True"
| "is_data _ = False"




section \<open>Properties of the recorder\<close>

subsection \<open>What each handler does, while recording and while not\<close>

lemma fold_max_ge: "seq \<le> fold max ids (seq::nat)"
  by (induction ids arbitrary: seq) (auto intro: order_trans [OF max.cobounded2])

lemma fold_max_mem: "i \<in> set ids \<Longrightarrow> i \<le> fold max ids (seq::nat)"
proof (induction ids arbitrary: seq)
  case Nil
  then show ?case by simp
next
  case (Cons a ids)
  show ?case
  proof (cases "i = a")
    case True
    have "a \<le> max a seq" by simp
    also have "\<dots> \<le> fold max ids (max a seq)" by (rule fold_max_ge)
    finally show ?thesis using True by simp
  next
    case False
    with Cons show ?thesis by simp
  qed
qed

lemma next_rowid_fresh: "next_rowid seq ids \<notin> set ids"
  using fold_max_mem [of "next_rowid seq ids" ids seq] by (auto simp add: next_rowid_def)


lemma persistDatabase_fields:
  "db (persistDatabase w s) = db s"
  "sessionId (persistDatabase w s) = sessionId s"
  "currentTurnId (persistDatabase w s) = currentTurnId s"
  "disk (persistDatabase w s) =
     (case db s of None \<Rightarrow> disk s
      | Some st \<Rightarrow> if write_ok w then Some (export st) else disk s)"
  by (auto simp add: persistDatabase_def split: option.splits)


lemma idle:
  assumes "\<not> recording s"
  shows "on_input w e1 s = s" "on_session_shutdown w s = s" "on_turn_start e2 s = s"
    "on_turn_end w m s = s" "on_tool_call w e3 s = s" "on_tool_result w e4 s = s"
    "on_model_select w e5 s = s"
  using assms
  by (auto simp add: recording_def on_input_def on_session_shutdown_def on_turn_start_def
      on_turn_end_def on_tool_call_def on_tool_result_def on_model_select_def
      split: option.splits)

lemma session_start_open:
  assumes "db s = Some (Tables d)"
  shows "on_session_start w c s =
     persistDatabase w
       (s\<lparr>sessionId := Some (ctx_sessionId c), currentTurnId := None,
           toolCallStarts := Map.empty,
           db := Some (Tables (insert_or_replace_session (ctx_sessionId c) (ctx_sessionFile c)
                   (ctx_cwd c) (now w) (map_option fst (ctx_model c))
                   (map_option snd (ctx_model c)) d))\<rparr>)"
  using assms by (simp add: on_session_start_def initDatabase_def Let_def safeRun_def)

lemma input_recording:
  assumes "db s = Some (Tables d)" "sessionId s = Some sid" "sid \<noteq> []"
  shows "\<exists>content. on_input w e s =
     persistDatabase w
       (s\<lparr>db := Some (Tables (insert_message sid ''user'' content None (now w) d))\<rparr>)"
  using assms by (auto simp add: on_input_def Let_def safeRun_def)

lemma turn_start_recording:
  assumes "db s = Some (Tables d)" "sessionId s = Some sid" "sid \<noteq> []"
  shows "on_turn_start e s =
     s\<lparr>currentTurnStartedAt := timestamp e,
       db := Some (Tables (fst (insert_turn sid (turnIndex e) (timestamp e) d))),
       currentTurnId := Some (snd (insert_turn sid (turnIndex e) (timestamp e) d))\<rparr>"
  using assms by (simp add: on_turn_start_def Let_def split: prod.splits)

lemma turn_end_no_turn:
  assumes "currentTurnId s = None \<or> currentTurnId s = Some 0"
  shows "on_turn_end w m s = s"
  using assms by (auto simp add: on_turn_end_def split: option.splits)

lemma turn_end_recording:
  assumes "db s = Some (Tables d)" "sessionId s = Some sid" "sid \<noteq> []"
    and "currentTurnId s = Some tid" "tid \<noteq> 0"
  shows "\<exists>i o' c d'. on_turn_end w m s = persistDatabase w (s\<lparr>db := Some (Tables d')\<rparr>) \<and>
     turns d' = turns (update_turn (now w) (now w - currentTurnStartedAt s)
                  (message_provider m) (message_model m) i o' c (message_stopReason m) tid d) \<and>
     turns_seq d' = turns_seq d \<and>
     sessions d' = sessions (update_session_totals i o' c sid d) \<and>
     tool_calls d' = tool_calls d"
proof -
  define i where "i = (case message_usage m of None \<Rightarrow> Double 0 0
                       | Some u \<Rightarrow> (case usage_input u of None \<Rightarrow> Double 0 0 | Some n \<Rightarrow> n))"
  define o' where "o' = (case message_usage m of None \<Rightarrow> Double 0 0
                       | Some u \<Rightarrow> (case usage_output u of None \<Rightarrow> Double 0 0 | Some n \<Rightarrow> n))"
  define c where "c = (case message_usage m of None \<Rightarrow> Double 0 0
                      | Some u \<Rightarrow> (case usage_cost_total u of None \<Rightarrow> Double 0 0 | Some x \<Rightarrow> x))"
  define d2 where "d2 = update_session_totals i o' c sid
       (update_turn (now w) (now w - currentTurnStartedAt s)
                  (message_provider m) (message_model m) i o' c (message_stopReason m) tid d)"
  define d3 where "d3 = (case message_content m of
                         None \<Rightarrow> d2
                       | Some content \<Rightarrow>
                           (let assistantText = extractTextContent content
                            in if assistantText \<noteq> []
                               then insert_message sid ''assistant'' assistantText (Some tid)
                                      (now w) d2
                               else d2))"
  have eq: "on_turn_end w m s = persistDatabase w (s\<lparr>db := Some (Tables d3)\<rparr>)"
    unfolding on_turn_end_def d3_def d2_def i_def o'_def c_def
    using assms by (simp add: Let_def safeRun_def split: option.splits cong: option.case_cong)
  have p: "turns d3 = turns d2" "turns_seq d3 = turns_seq d2" "sessions d3 = sessions d2"
    "tool_calls d3 = tool_calls d2"
    by (auto simp add: d3_def insert_message_def Let_def split: option.splits)
  have q: "turns d2 = turns (update_turn (now w) (now w - currentTurnStartedAt s)
                  (message_provider m) (message_model m) i o' c (message_stopReason m) tid d)"
    "turns_seq d2 = turns_seq d" "tool_calls d2 = tool_calls d"
    "sessions d2 = sessions (update_session_totals i o' c sid d)"
    by (simp_all add: d2_def update_session_totals_def update_turn_def)
  show ?thesis using eq p q by auto
qed

lemma tool_call_recording:
  assumes "db s = Some (Tables d)" "sessionId s = Some sid" "sid \<noteq> []"
  shows "on_tool_call w e s =
     s\<lparr>toolCallStarts := (toolCallStarts s)(call_toolCallId e \<mapsto> now w),
       db := Some (Tables (case call_input e of
                     Throws \<Rightarrow> d
                   | Json j \<Rightarrow> insert_tool_call (call_toolCallId e) sid (currentTurnId s)
                                (call_toolName e) (Some j) (now w) d))\<rparr>"
proof (cases "call_input e")
  case Throws
  have "s\<lparr>toolCallStarts := (toolCallStarts s)(call_toolCallId e \<mapsto> now w)\<rparr> =
        s\<lparr>toolCallStarts := (toolCallStarts s)(call_toolCallId e \<mapsto> now w),
          db := Some (Tables d)\<rparr>"
    using assms(1) by simp
  with Throws show ?thesis using assms
    by (simp add: on_tool_call_def Let_def del: fun_upd_apply)
next
  case (Json j)
  then show ?thesis using assms by (simp add: on_tool_call_def Let_def safeRun_def)
qed

lemma tool_result_recording:
  assumes "db s = Some (Tables d)" "sessionId s = Some sid" "sid \<noteq> []"
  shows "on_tool_result w e s =
     persistDatabase w
       (s\<lparr>toolCallStarts := (toolCallStarts s)(result_toolCallId e := None),
          db := Some (Tables (update_tool_call (now w)
                        (now w - (case toolCallStarts s (result_toolCallId e) of
                                    Some t \<Rightarrow> t | None \<Rightarrow> now w))
                        (if result_isError e then 1 else 0)
                        (extractTextContent (result_content e)) (result_toolCallId e) d))\<rparr>)"
  using assms by (simp add: on_tool_result_def Let_def safeRun_def)

lemma model_select_recording:
  assumes "db s = Some (Tables d)" "sessionId s = Some sid" "sid \<noteq> []"
  shows "on_model_select w e s =
     persistDatabase w
       (s\<lparr>db := Some (Tables (insert_model_change sid (now w)
                        (map_option fst (select_previousModel e))
                        (map_option snd (select_previousModel e))
                        (fst (select_model e)) (snd (select_model e)) d))\<rparr>)"
  using assms by (simp add: on_model_select_def safeRun_def)


subsection \<open>A started session\<close>

text \<open>
  The state \<open>session_start\<close> leaves when the process starts with no file on the
  disk: the store is open on the tables, it holds the one session row, and the
  session id is set.
\<close>

lemma started_db:
  "db (on_session_start (fair_world 1) session_A (initial None)) =
     Some (Tables (insert_or_replace_session ''A'' (Some ''a.jsonl'') ''/w'' 1
             (Some ''anthropic'') (Some ''m1'') empty_database))"
  by (simp add: on_session_start_def initDatabase_def loadSqlJs_def initial_def fair_world_def
      session_A_def persistDatabase_def safeRun_def new_Database_def Let_def)

lemma started_sessionId:
  "sessionId (on_session_start (fair_world 1) session_A (initial None)) = Some ''A''"
  by (simp add: on_session_start_def initDatabase_def loadSqlJs_def initial_def fair_world_def
      session_A_def persistDatabase_def safeRun_def new_Database_def Let_def)

text \<open>
  When the file holds bytes that are not a database, the first \<open>session_start\<close>
  leaves the unusable store in \<open>db\<close> and sets no session id; a second one finds
  \<open>db\<close> set, sets the session id and records nothing, and the file stays as it was.
\<close>

lemma failed_open:
  "db (on_session_start (fair_world 1) session_A (initial (Some NotADatabase))) =
     Some Unusable \<and>
   sessionId (on_session_start (fair_world 1) session_A (initial (Some NotADatabase))) = None \<and>
   db (on_session_start (fair_world 2) session_A
         (on_session_start (fair_world 1) session_A (initial (Some NotADatabase)))) =
     Some Unusable \<and>
   sessionId (on_session_start (fair_world 2) session_A
         (on_session_start (fair_world 1) session_A (initial (Some NotADatabase)))) =
     Some ''A'' \<and>
   disk (on_session_start (fair_world 2) session_A
         (on_session_start (fair_world 1) session_A (initial (Some NotADatabase)))) =
     Some NotADatabase"
  by (simp add: on_session_start_def initDatabase_def loadSqlJs_def initial_def fair_world_def
      session_A_def persistDatabase_def safeRun_def new_Database_def export_def Let_def)

subsection \<open>Truncation at the cap\<close>

text \<open>
  The recorder's loop and join give the text content as the specification reads it.
\<close>

lemma join_concat:
  "join ''\<newline>'' ts = butlast (concat (map (\<lambda>t. t @ ''\<newline>'') ts))"
proof (induction "''\<newline>''" ts rule: join.induct)
  case 1
  then show ?case by simp
next
  case (2 x)
  then show ?case by simp
next
  case (3 x y ys)
  have "concat (map (\<lambda>t. t @ ''\<newline>'') (y # ys)) \<noteq> []" by simp
  then show ?case using 3 by (simp add: butlast_append)
qed

lemma texts_filter:
  "texts content = map (\<lambda>item. the (item_text item))
     (filter (\<lambda>item. item_type item = ''text'' \<and> item_text item \<noteq> None \<and>
                      item_text item \<noteq> Some []) content)"
  by (induction content) (auto split: option.splits)

lemma join_text_content: "join ''\<newline>'' (texts content) = text_content content"
  by (simp add: join_concat texts_filter text_content_def comp_def)

lemma extract_stored_at_cap:
  "stored_at_cap (text_content content) (extractTextContent content)"
  by (simp add: stored_at_cap_def extractTextContent_def MAX_RESULT_SIZE_def Let_def
      join_text_content)

lemma extract_empty: "extractTextContent content = [] \<longleftrightarrow> text_content content = []"
  by (auto simp add: extractTextContent_def MAX_RESULT_SIZE_def Let_def join_text_content)

lemma on_input_stored:
  assumes "db s = Some (Tables d)" "sessionId s = Some sid" "sid \<noteq> []"
  shows "\<exists>d' row stored. db (on_input w e s) = Some (Tables d') \<and>
     messages d' = messages d @ [row] \<and>
     msg_role row = ''user'' \<and> msg_content row = Some stored \<and>
     stored_at_cap (input_text e) stored"
  using assms
  by (simp add: on_input_def persistDatabase_def safeRun_def insert_message_def
      MAX_RESULT_SIZE_def Let_def stored_at_cap_def)

lemma on_tool_result_stored:
  assumes "db s = Some (Tables d)" "sessionId s = Some sid" "sid \<noteq> []"
  shows "\<exists>d'. db (on_tool_result w e s) = Some (Tables d') \<and>
     map call_id (tool_calls d') = map call_id (tool_calls d) \<and>
     (\<forall>r \<in> set (tool_calls d'). call_id r = result_toolCallId e \<longrightarrow>
        result_text r = Some (extractTextContent (result_content e)))"
  using assms
  by (auto simp add: tool_result_recording persistDatabase_fields update_tool_call_def)

lemma on_turn_end_stored:
  assumes "db s = Some (Tables d)" "sessionId s = Some sid" "sid \<noteq> []"
    and "currentTurnId s = Some tid" "tid \<noteq> 0"
    and "message_content m = Some content" "extractTextContent content \<noteq> []"
  shows "\<exists>d' row. db (on_turn_end w m s) = Some (Tables d') \<and>
     messages d' = messages d @ [row] \<and>
     msg_role row = ''assistant'' \<and> msg_content row = Some (extractTextContent content)"
  using assms
  by (simp add: on_turn_end_def persistDatabase_def safeRun_def insert_message_def Let_def
      update_session_totals_def update_turn_def)

lemma on_turn_end_nothing_stored:
  assumes "db s = Some (Tables d)" "sessionId s = Some sid" "sid \<noteq> []"
    and "currentTurnId s = Some tid" "tid \<noteq> 0"
    and "message_content m = Some content" "extractTextContent content = []"
  shows "\<exists>d'. db (on_turn_end w m s) = Some (Tables d') \<and> messages d' = messages d"
  using assms
  by (simp add: on_turn_end_def persistDatabase_def safeRun_def Let_def
      update_session_totals_def update_turn_def)

text \<open>
  Claim C3. While the recorder records on the tables (store open and usable,
  session id set), what it stores for a text is the text at the cap. The texts are:
  the text of an \<open>input\<close> event, stored as the content of a new user message; the
  text content of a \<open>tool_result\<close> event (the texts of its items of type \<open>"text"\<close> with
  a non-empty text, one per line), stored as the result text of every row of the
  call; and the text content of the assistant message of a \<open>turn_end\<close> event, stored
  as the content of a new assistant message when it is not empty and a turn is
  current (and no message is stored when it is empty). A text longer than
  \<open>50 * 1024\<close> is stored as exactly its first \<open>50 * 1024\<close> characters followed by the
  marker, never longer than cap plus marker; a text at or under the cap is stored
  unmodified.
\<close>

theorem stored_content_truncated_at_cap:
  assumes "db s = Some (Tables d)" and "sessionId s = Some sid" and "sid \<noteq> []"
  shows "(\<exists>d' row stored. db (on_input w e s) = Some (Tables d') \<and>
            messages d' = messages d @ [row] \<and>
            msg_role row = ''user'' \<and> msg_content row = Some stored \<and>
            stored_at_cap (input_text e) stored) \<and>
         (\<exists>d' stored. db (on_tool_result w r s) = Some (Tables d') \<and>
            map call_id (tool_calls d') = map call_id (tool_calls d) \<and>
            (\<forall>row \<in> set (tool_calls d'). call_id row = result_toolCallId r \<longrightarrow>
               result_text row = Some stored) \<and>
            stored_at_cap (text_content (result_content r)) stored) \<and>
         (currentTurnId s = Some tid \<and> tid \<noteq> 0 \<and> message_content m = Some content \<longrightarrow>
            (\<exists>d'. db (on_turn_end w m s) = Some (Tables d') \<and>
               (if text_content content = [] then messages d' = messages d
                else (\<exists>row stored. messages d' = messages d @ [row] \<and>
                        msg_role row = ''assistant'' \<and> msg_content row = Some stored \<and>
                        stored_at_cap (text_content content) stored))))"
proof (intro conjI impI)
  show "\<exists>d' row stored. db (on_input w e s) = Some (Tables d') \<and>
            messages d' = messages d @ [row] \<and>
            msg_role row = ''user'' \<and> msg_content row = Some stored \<and>
            stored_at_cap (input_text e) stored"
    using on_input_stored [OF assms] .
next
  show "\<exists>d' stored. db (on_tool_result w r s) = Some (Tables d') \<and>
            map call_id (tool_calls d') = map call_id (tool_calls d) \<and>
            (\<forall>row \<in> set (tool_calls d'). call_id row = result_toolCallId r \<longrightarrow>
               result_text row = Some stored) \<and>
            stored_at_cap (text_content (result_content r)) stored"
    using on_tool_result_stored [OF assms, of w r] extract_stored_at_cap [of "result_content r"]
    by blast
next
  assume a: "currentTurnId s = Some tid \<and> tid \<noteq> 0 \<and> message_content m = Some content"
  show "\<exists>d'. db (on_turn_end w m s) = Some (Tables d') \<and>
               (if text_content content = [] then messages d' = messages d
                else (\<exists>row stored. messages d' = messages d @ [row] \<and>
                        msg_role row = ''assistant'' \<and> msg_content row = Some stored \<and>
                        stored_at_cap (text_content content) stored))"
  proof (cases "text_content content = []")
    case True
    then have "extractTextContent content = []" by (simp add: extract_empty)
    with a on_turn_end_nothing_stored [OF assms, of tid m content w] True
    show ?thesis by simp
  next
    case False
    then have "extractTextContent content \<noteq> []" by (simp add: extract_empty)
    with a on_turn_end_stored [OF assms, of tid m content w] extract_stored_at_cap [of content]
      False
    show ?thesis by auto
  qed
qed

lemma capped_state_fields:
  "\<exists>d. db capped_state = Some (Tables d) \<and> messages d = [] \<and>
     map call_id (tool_calls d) = [''c'']"
  "sessionId capped_state = Some ''A''"
  "currentTurnId capped_state = Some 1"
  by (simp_all add: capped_state_def on_session_start_def initDatabase_def loadSqlJs_def
      initial_def fair_world_def session_A_def persistDatabase_def safeRun_def
      new_Database_def on_tool_call_def on_turn_start_def insert_or_replace_session_def
      insert_tool_call_def insert_turn_def empty_database_def next_rowid_def Let_def)

text \<open>
  In a started session with a recorded tool call \<open>c\<close> and a current turn: a user
  message of 51201 characters is stored as its first 51200 characters and the
  marker; a tool result whose text items are 51200 characters and \<open>yz\<close> (with an
  image between them) is stored in the row of \<open>c\<close> as the 51200 characters and the
  marker; an assistant message with the text items \<open>ab\<close>, an empty one and \<open>cd\<close> is
  stored unmodified as the two lines.
\<close>

theorem stored_content_truncated_at_cap_witness:
  "(\<exists>d' row. db (on_input (fair_world 6) long_input capped_state) = Some (Tables d') \<and>
      messages d' = [row] \<and> msg_role row = ''user'' \<and>
      msg_content row = Some (replicate 51200 CHR ''x'' @ ''\<newline>... [truncated at 50KB]'')) \<and>
   (\<exists>d'. db (on_tool_result (fair_world 6) long_result capped_state) = Some (Tables d') \<and>
      map result_text (tool_calls d') =
        [Some (replicate 51200 CHR ''x'' @ ''\<newline>... [truncated at 50KB]'')]) \<and>
   (\<exists>d' row. db (on_turn_end (fair_world 6) short_message capped_state) = Some (Tables d') \<and>
      messages d' = [row] \<and> msg_role row = ''assistant'' \<and>
      msg_content row = Some ''ab\<newline>cd'')"
proof -
  from capped_state_fields(1) obtain d where d: "db capped_state = Some (Tables d)"
    "messages d = []" "map call_id (tool_calls d) = [''c'']"
    by auto
  have n: "''A'' \<noteq> []" by simp
  have m: "currentTurnId capped_state = Some 1 \<and> (1::nat) \<noteq> 0 \<and>
      message_content short_message = Some (the (message_content short_message))"
    by (simp add: capped_state_fields short_message_def)
  have t1: "text_content (result_content long_result) = replicate 51200 CHR ''x'' @ ''\<newline>yz''"
    by (simp add: long_result_def text_content_def butlast_append)
  have t2: "text_content (the (message_content short_message)) = ''ab\<newline>cd''"
    by (simp add: short_message_def text_content_def)
  note c = stored_content_truncated_at_cap [OF d(1) capped_state_fields(2) n,
      of "fair_world 6" long_input long_result 1 short_message
         "the (message_content short_message)"]
  from c obtain d1 row1 stored1
    where 1: "db (on_input (fair_world 6) long_input capped_state) = Some (Tables d1)"
      "messages d1 = messages d @ [row1]" "msg_role row1 = ''user''"
      "msg_content row1 = Some stored1" "stored_at_cap (input_text long_input) stored1"
    by blast
  from 1(5) have s1: "stored1 = replicate 51200 CHR ''x'' @ ''\<newline>... [truncated at 50KB]''"
    by (simp add: stored_at_cap_def long_input_def)
  from c obtain d2 stored2
    where 2: "db (on_tool_result (fair_world 6) long_result capped_state) = Some (Tables d2)"
      "map call_id (tool_calls d2) = map call_id (tool_calls d)"
      "\<forall>row \<in> set (tool_calls d2). call_id row = result_toolCallId long_result \<longrightarrow>
         result_text row = Some stored2"
      "stored_at_cap (text_content (result_content long_result)) stored2"
    by blast
  from 2(4) have s2: "stored2 = replicate 51200 CHR ''x'' @ ''\<newline>... [truncated at 50KB]''"
    unfolding t1 by (simp add: stored_at_cap_def)
  from 2(2) d(3) obtain row2 where r2: "tool_calls d2 = [row2]" "call_id row2 = ''c''"
    by (cases "tool_calls d2") auto
  with 2(3) have "result_text row2 = Some stored2" by (simp add: long_result_def)
  with r2 have f2: "map result_text (tool_calls d2) = [Some stored2]" by simp
  from c m obtain d3
    where 3: "db (on_turn_end (fair_world 6) short_message capped_state) = Some (Tables d3)"
      "if text_content (the (message_content short_message)) = [] then messages d3 = messages d
       else (\<exists>row stored. messages d3 = messages d @ [row] \<and>
               msg_role row = ''assistant'' \<and> msg_content row = Some stored \<and>
               stored_at_cap (text_content (the (message_content short_message))) stored)"
    by blast
  from 3(2) obtain row3 stored3 where r3: "messages d3 = messages d @ [row3]"
    "msg_role row3 = ''assistant''" "msg_content row3 = Some stored3"
    "stored_at_cap ''ab\<newline>cd'' stored3"
    unfolding t2 by auto
  from r3(4) have s3: "stored3 = ''ab\<newline>cd''" by (simp add: stored_at_cap_def)
  show ?thesis
    using 1 s1 2(1) f2 s2 3(1) r3 s3 d(2) by simp
qed

subsection \<open>Session start is an upsert\<close>

lemma initDatabase_open: "db s \<noteq> None \<Longrightarrow> initDatabase w s = (s, True)"
  by (simp add: initDatabase_def)








subsection \<open>End events complete their rows\<close>

lemma recording_tables:
  assumes "recording s" and "db s = Some (Tables d)"
  obtains sid where "sessionId s = Some sid" "sid \<noteq> []"
  using assms by (auto simp add: recording_def split: option.splits)

lemma turn_completed_same:
  assumes "turn_completed s t" and "db s = Some (Tables d)" and "db s' = Some (Tables d')"
    and "turns d' = turns d"
  shows "turn_completed s' t"
  using assms by (simp add: turn_completed_def)

lemma turn_completed_insert:
  assumes "turn_completed s t" and "db s = Some (Tables d)" and "db s' = Some (Tables d')"
    and "turns d' = turns (fst (insert_turn sid idx st d))"
  shows "turn_completed s' t"
  using assms next_rowid_fresh [of "turns_seq d" "map turn_id (turns d)"]
  by (auto simp add: turn_completed_def insert_turn_def Let_def)

lemma turn_completed_update:
  assumes "turn_completed s t" and "db s = Some (Tables d)" and "db s' = Some (Tables d')"
    and "turns d' = turns (update_turn a b p q i j c r tid d)"
  shows "turn_completed s' t"
proof -
  have ids: "map turn_id (turns d') = map turn_id (turns d)"
    using assms(4) by (simp add: update_turn_def)
  have "\<forall>r\<in>set (turns d). turn_id r = t \<longrightarrow> turn_ended_at r \<noteq> None"
    using assms(1,2) by (simp add: turn_completed_def list_all_iff turn_half_filled_def)
  then have "\<forall>r\<in>set (turns d'). turn_id r = t \<longrightarrow> turn_ended_at r \<noteq> None"
    using assms(4) by (auto simp add: update_turn_def)
  then show ?thesis
    using assms(1,2,3) ids by (simp add: turn_completed_def list_all_iff turn_half_filled_def)
qed

lemma call_completed_same:
  assumes "call_completed s t" and "db s = Some (Tables d)" and "db s' = Some (Tables d')"
    and "tool_calls d' = tool_calls d"
  shows "call_completed s' t"
  using assms by (simp add: call_completed_def)

lemma call_completed_insert:
  assumes "call_completed s t" and "db s = Some (Tables d)" and "db s' = Some (Tables d')"
    and "tool_calls d' = tool_calls (insert_tool_call cid sid tid name j st d)"
  shows "call_completed s' t"
  using assms by (auto simp add: call_completed_def insert_tool_call_def)

lemma call_completed_update:
  assumes "call_completed s t" and "db s = Some (Tables d)" and "db s' = Some (Tables d')"
    and "tool_calls d' = tool_calls (update_tool_call a b c r cid d)"
  shows "call_completed s' t"
proof -
  have ids: "map call_id (tool_calls d') = map call_id (tool_calls d)"
    using assms(4) by (simp add: update_tool_call_def)
  have "\<forall>r\<in>set (tool_calls d). call_id r = t \<longrightarrow> call_ended_at r \<noteq> None"
    using assms(1,2) by (simp add: call_completed_def list_all_iff call_half_filled_def)
  then have "\<forall>r\<in>set (tool_calls d'). call_id r = t \<longrightarrow> call_ended_at r \<noteq> None"
    using assms(4) by (auto simp add: update_tool_call_def)
  then show ?thesis
    using assms(1,2,3) ids by (simp add: call_completed_def list_all_iff call_half_filled_def)
qed

lemma completed_step_tables:
  assumes "keeps_open (snd x)" and d: "db s = Some (Tables d)"
  shows "(turn_completed s t \<longrightarrow> turn_completed (step x s) t) \<and>
         (call_completed s k \<longrightarrow> call_completed (step x s) k)"
proof (cases "recording s \<or> (\<exists>c. snd x = SessionStart c)")
  case False
  then have "step x s = s"
    using assms(1) by (cases x; cases "snd x") (auto simp add: idle)
  then show ?thesis by simp
next
  case True
  obtain w ev where x: "x = (w, ev)" by (cases x)
  show ?thesis
  proof (cases ev)
    case (SessionStart c)
    let ?d' = "insert_or_replace_session (ctx_sessionId c) (ctx_sessionFile c)
                 (ctx_cwd c) (now w) (map_option fst (ctx_model c))
                 (map_option snd (ctx_model c)) d"
    have s': "db (step x s) = Some (Tables ?d')"
      using x SessionStart d by (simp add: session_start_open persistDatabase_fields)
    have "turns ?d' = turns d" "tool_calls ?d' = tool_calls d"
      by (simp_all add: insert_or_replace_session_def)
    then show ?thesis
      using turn_completed_same [OF _ d s'] call_completed_same [OF _ d s'] by blast
  next
    case (Input e)
    with True x have "recording s" by simp
    then obtain sid where r: "sessionId s = Some sid" "sid \<noteq> []"
      using d by (rule recording_tables)
    from input_recording [OF d r, of w e] obtain content where
      "on_input w e s =
         persistDatabase w
           (s\<lparr>db := Some (Tables (insert_message sid ''user'' content None (now w) d))\<rparr>)"
      by blast
    then have s': "db (step x s) =
        Some (Tables (insert_message sid ''user'' content None (now w) d))"
      using x Input by (simp add: persistDatabase_fields)
    have "turns (insert_message sid ''user'' content None (now w) d) = turns d"
      "tool_calls (insert_message sid ''user'' content None (now w) d) = tool_calls d"
      by (simp_all add: insert_message_def Let_def)
    then show ?thesis
      using turn_completed_same [OF _ d s'] call_completed_same [OF _ d s'] by blast
  next
    case SessionShutdown
    then show ?thesis using assms(1) x by simp
  next
    case (TurnStart e)
    with True x have "recording s" by simp
    then obtain sid where r: "sessionId s = Some sid" "sid \<noteq> []"
      using d by (rule recording_tables)
    let ?d' = "fst (insert_turn sid (turnIndex e) (timestamp e) d)"
    have s': "db (step x s) = Some (Tables ?d')"
      using x TurnStart by (simp add: turn_start_recording [OF d r])
    have "tool_calls ?d' = tool_calls d"
      by (simp add: insert_turn_def Let_def)
    then show ?thesis
      using turn_completed_insert [OF _ d s' refl] call_completed_same [OF _ d s'] by blast
  next
    case (TurnEnd m)
    with True x have "recording s" by simp
    then obtain sid where r: "sessionId s = Some sid" "sid \<noteq> []"
      using d by (rule recording_tables)
    show ?thesis
    proof (cases "currentTurnId s = None \<or> currentTurnId s = Some 0")
      case True
      then show ?thesis using TurnEnd x by (simp add: turn_end_no_turn)
    next
      case False
      then obtain tid where t: "currentTurnId s = Some tid" "tid \<noteq> 0" by auto
      from turn_end_recording [OF d r t, of w m] obtain i o' c d'
        where e: "on_turn_end w m s = persistDatabase w (s\<lparr>db := Some (Tables d')\<rparr>)"
          and tu: "turns d' = turns (update_turn (now w) (now w - currentTurnStartedAt s)
                (message_provider m) (message_model m) i o' c (message_stopReason m) tid d)"
          and tc: "tool_calls d' = tool_calls d"
        by blast
      have s': "db (step x s) = Some (Tables d')"
        using e TurnEnd x by (simp add: persistDatabase_fields)
      show ?thesis
        using turn_completed_update [OF _ d s' tu] call_completed_same [OF _ d s' tc] by blast
    qed
  next
    case (ToolCall e)
    with True x have "recording s" by simp
    then obtain sid where r: "sessionId s = Some sid" "sid \<noteq> []"
      using d by (rule recording_tables)
    have tu: "turns (insert_tool_call a b c e f g d) = turns d" for a b c e f g
      by (simp add: insert_tool_call_def)
    show ?thesis
    proof (cases "call_input e")
      case Throws
      then have s': "db (step x s) = Some (Tables d)"
        using x ToolCall by (simp add: tool_call_recording [OF d r])
      show ?thesis
        using turn_completed_same [OF _ d s'] call_completed_same [OF _ d s'] by blast
    next
      case (Json j)
      then have s': "db (step x s) = Some (Tables (insert_tool_call (call_toolCallId e) sid
          (currentTurnId s) (call_toolName e) (Some j) (now w) d))"
        using x ToolCall by (simp add: tool_call_recording [OF d r])
      show ?thesis
        using turn_completed_same [OF _ d s' tu] call_completed_insert [OF _ d s' refl]
        by blast
    qed
  next
    case (ToolResult e)
    with True x have "recording s" by simp
    then obtain sid where r: "sessionId s = Some sid" "sid \<noteq> []"
      using d by (rule recording_tables)
    let ?d' = "update_tool_call (now w)
                      (now w - (case toolCallStarts s (result_toolCallId e) of
                                  Some t \<Rightarrow> t | None \<Rightarrow> now w))
                      (if result_isError e then 1 else 0)
                      (extractTextContent (result_content e)) (result_toolCallId e) d"
    have s': "db (step x s) = Some (Tables ?d')"
      using x ToolResult by (simp add: tool_result_recording [OF d r] persistDatabase_fields)
    have tu: "turns ?d' = turns d"
      by (simp add: update_tool_call_def)
    show ?thesis
      using turn_completed_same [OF _ d s' tu] call_completed_update [OF _ d s' refl]
      by blast
  next
    case (ModelSelect e)
    with True x have "recording s" by simp
    then obtain sid where r: "sessionId s = Some sid" "sid \<noteq> []"
      using d by (rule recording_tables)
    let ?d' = "insert_model_change sid (now w)
                      (map_option fst (select_previousModel e))
                      (map_option snd (select_previousModel e))
                      (fst (select_model e)) (snd (select_model e)) d"
    have s': "db (step x s) = Some (Tables ?d')"
      using x ModelSelect by (simp add: model_select_recording [OF d r] persistDatabase_fields)
    have "turns ?d' = turns d" "tool_calls ?d' = tool_calls d"
      by (simp_all add: insert_model_change_def Let_def)
    then show ?thesis
      using turn_completed_same [OF _ d s'] call_completed_same [OF _ d s'] by blast
  qed
qed

lemma completed_step:
  assumes "keeps_open (snd x)"
  shows "(turn_completed s t \<longrightarrow> turn_completed (step x s) t) \<and>
         (call_completed s k \<longrightarrow> call_completed (step x s) k)"
proof (cases "\<exists>d. db s = Some (Tables d)")
  case True
  then obtain d where "db s = Some (Tables d)" by blast
  with assms show ?thesis by (rule completed_step_tables)
next
  case False
  then have "\<not> turn_completed s t" "\<not> call_completed s k"
    by (auto simp add: turn_completed_def call_completed_def split: option.splits store.splits)
  then show ?thesis by simp
qed

lemma completed_run:
  assumes "list_all (\<lambda>x. keeps_open (snd x)) evs"
  shows "(turn_completed s t \<longrightarrow> turn_completed (run evs s) t) \<and>
         (call_completed s k \<longrightarrow> call_completed (run evs s) k)"
  using assms
proof (induction evs arbitrary: s)
  case Nil
  then show ?case by simp
next
  case (Cons x evs)
  then have "keeps_open (snd x)" "list_all (\<lambda>x. keeps_open (snd x)) evs" by simp_all
  with completed_step [of x s t k] Cons.IH [of "step x s"] show ?case by simp
qed

lemma open_turnE:
  assumes "open_turn s t"
  obtains d sid where "db s = Some (Tables d)" "sessionId s = Some sid" "sid \<noteq> []"
    "currentTurnId s = Some t" "t \<noteq> 0" "t \<in> set (map turn_id (turns d))"
  using assms
  by (auto simp add: open_turn_def recording_def split: option.splits store.splits)

lemma recorded_callE:
  assumes "recorded_call s c"
  obtains d sid where "db s = Some (Tables d)" "sessionId s = Some sid" "sid \<noteq> []"
    "c \<in> set (map call_id (tool_calls d))"
  using assms
  by (auto simp add: recorded_call_def recording_def split: option.splits store.splits)

lemma turn_end_completes:
  assumes "open_turn s t"
  shows "turn_completed (on_turn_end w m s) t"
proof -
  from assms obtain d sid where r: "db s = Some (Tables d)" "sessionId s = Some sid" "sid \<noteq> []"
    and t: "currentTurnId s = Some t" "t \<noteq> 0" "t \<in> set (map turn_id (turns d))"
    by (rule open_turnE)
  from turn_end_recording [OF r t(1,2), of w m] obtain i o' c d'
    where e: "on_turn_end w m s = persistDatabase w (s\<lparr>db := Some (Tables d')\<rparr>)"
      and tu: "turns d' = turns (update_turn (now w) (now w - currentTurnStartedAt s)
            (message_provider m) (message_model m) i o' c (message_stopReason m) t d)"
    by blast
  have "db (on_turn_end w m s) = Some (Tables d')"
    using e by (simp add: persistDatabase_fields)
  then show ?thesis using tu t(3)
    by (auto simp add: turn_completed_def update_turn_def list_all_iff turn_half_filled_def)
qed

lemma tool_result_completes:
  assumes "recorded_call s (result_toolCallId e)"
  shows "call_completed (on_tool_result w e s) (result_toolCallId e)"
proof -
  from assms obtain d sid where r: "db s = Some (Tables d)" "sessionId s = Some sid" "sid \<noteq> []"
    and t: "result_toolCallId e \<in> set (map call_id (tool_calls d))"
    by (rule recorded_callE)
  show ?thesis using t
    by (auto simp add: tool_result_recording [OF r] persistDatabase_fields call_completed_def
        update_tool_call_def list_all_iff call_half_filled_def)
qed

text \<open>
  The matching start events lead to these states: while the recorder records on the
  tables, a \<open>turn_start\<close> leaves an open turn, and a \<open>tool_call\<close> whose input can be
  written as JSON leaves a recorded call.
\<close>

lemma turn_start_opens:
  assumes "recording s" and "db s = Some (Tables d)"
  shows "open_turn (on_turn_start e s) (next_rowid (turns_seq d) (map turn_id (turns d)))"
proof -
  from assms obtain sid where r: "sessionId s = Some sid" "sid \<noteq> []"
    by (rule recording_tables)
  show ?thesis
    using r assms(2)
    by (auto simp add: turn_start_recording [OF assms(2) r] open_turn_def recording_def
        insert_turn_def next_rowid_def Let_def)
qed

lemma tool_call_records:
  assumes "recording s" and "db s = Some (Tables d)" and "call_input e = Json j"
  shows "recorded_call (on_tool_call w e s) (call_toolCallId e)"
proof -
  from assms(1,2) obtain sid where r: "sessionId s = Some sid" "sid \<noteq> []"
    by (rule recording_tables)
  show ?thesis
    using r assms(2,3)
    by (auto simp add: tool_call_recording [OF assms(2) r] recorded_call_def recording_def
        insert_tool_call_def)
qed

lemma started_recording:
  "recording (on_session_start (fair_world 1) session_A (initial None))"
  by (simp add: recording_def started_db started_sessionId)

lemma started_open_turn:
  "open_turn (on_turn_start \<lparr>turnIndex = 0, timestamp = 5\<rparr>
                (on_session_start (fair_world 1) session_A (initial None))) 1"
  using turn_start_opens [OF started_recording started_db, of "\<lparr>turnIndex = 0, timestamp = 5\<rparr>"]
  by (simp add: next_rowid_def insert_or_replace_session_def empty_database_def)

lemma started_recorded_call:
  "recorded_call (on_tool_call (fair_world 6)
       \<lparr>call_toolCallId = ''c'', call_toolName = ''bash'', call_input = Json ''{}''\<rparr>
       (on_session_start (fair_world 1) session_A (initial None))) ''c''"
  using tool_call_records [OF started_recording started_db,
      of "\<lparr>call_toolCallId = ''c'', call_toolName = ''bash'', call_input = Json ''{}''\<rparr>"
         "''{}''" "fair_world 6"]
  by simp

text \<open>
  Claim C2. From any state of the recorder (so after any sequence of events): once
  the \<open>turn_end\<close> event of an open turn has been processed, the turn's row is in the
  store and no row of the turn has a start time without an end time; once the
  \<open>tool_result\<close> event of a recorded tool call has been processed, the same holds of
  the call's row. An open turn is the current turn of a recorder that records, with
  its row in the store; a recorded tool call is a row with the call's id in the store
  of a recorder that records. The row stays complete through every later sequence
  \<open>evs\<close> of events that keep the store open.
\<close>

theorem end_event_completes_row:
  assumes "list_all (\<lambda>x. keeps_open (snd x)) evs"
  shows "(open_turn s t \<longrightarrow> turn_completed (run evs (on_turn_end w m s)) t) \<and>
         (recorded_call s (result_toolCallId e) \<longrightarrow>
            call_completed (run evs (on_tool_result w e s)) (result_toolCallId e))"
  using turn_end_completes [of s t w m] tool_result_completes [of s e w]
    completed_run [OF assms, of "on_turn_end w m s" t]
    completed_run [OF assms, of "on_tool_result w e s" _ "result_toolCallId e"]
  by blast

text \<open>
  A session with one turn, and one with one tool call \<open>c\<close>: after the end event and a
  later user input, the row of turn 1 and the row of call \<open>c\<close> are complete.
\<close>

theorem end_event_completes_row_witness:
  "turn_completed
     (run [(fair_world 9, Input \<lparr>input_text = ''next''\<rparr>)]
        (on_turn_end (fair_world 8)
           \<lparr>message_provider = None, message_model = None, message_content = None,
            message_usage = None, message_stopReason = None\<rparr>
           (on_turn_start \<lparr>turnIndex = 0, timestamp = 5\<rparr>
              (on_session_start (fair_world 1) session_A (initial None))))) 1 \<and>
   call_completed
     (run [(fair_world 9, Input \<lparr>input_text = ''next''\<rparr>)]
        (on_tool_result (fair_world 8)
           \<lparr>result_toolCallId = ''c'', result_content = [], result_isError = False\<rparr>
           (on_tool_call (fair_world 6)
              \<lparr>call_toolCallId = ''c'', call_toolName = ''bash'', call_input = Json ''{}''\<rparr>
              (on_session_start (fair_world 1) session_A (initial None))))) ''c''"
proof -
  have k: "list_all (\<lambda>x. keeps_open (snd x)) [(fair_world 9, Input \<lparr>input_text = ''next''\<rparr>)]"
    by simp
  show ?thesis
    using end_event_completes_row [OF k,
        where s = "on_turn_start \<lparr>turnIndex = 0, timestamp = 5\<rparr>
              (on_session_start (fair_world 1) session_A (initial None))"
          and t = 1 and w = "fair_world 8"]
      end_event_completes_row [OF k,
        where s = "on_tool_call (fair_world 6)
              \<lparr>call_toolCallId = ''c'', call_toolName = ''bash'', call_input = Json ''{}''\<rparr>
              (on_session_start (fair_world 1) session_A (initial None))"
          and e = "\<lparr>result_toolCallId = ''c'', result_content = [], result_isError = False\<rparr>"
          and w = "fair_world 8"]
      started_open_turn started_recorded_call
    by simp
qed


subsection \<open>Arithmetic of the usage numbers\<close>














subsection \<open>Running totals\<close>




















section \<open>Properties of the tool extensions\<close>

subsection \<open>Fetch and convert\<close>

text \<open>
  Claim C8. For every URL, when \<open>fetch\<close> gives a response: on a status from 200 to
  299 whose body is read as \<open>t\<close>, \<open>execute\<close> returns \<open>t\<close> as it is, not as an error; on
  any other status it returns an error result whose text carries the status code and
  the status text, and does not throw.
\<close>

theorem fetch_url_by_status:
  assumes "fetch \<lparr>req_url = ''https://r.jina.ai/'' @ u, req_method = ''GET'',
                  req_headers = [(''Accept'', ''text/markdown'')], req_redirect = ''follow''\<rparr> = Inr r"
  shows "(200 \<le> status r \<and> status r \<le> 299 \<and> body r = Inr t \<longrightarrow>
            fetch_url_execute fetch u = Inr \<lparr>output_text = t, isError = False\<rparr>) \<and>
         (\<not> (200 \<le> status r \<and> status r \<le> 299) \<longrightarrow>
            fetch_url_execute fetch u =
              Inr \<lparr>output_text = ''Failed to fetch: '' @ decimal (status r) @ '' '' @ statusText r,
                   isError = True\<rparr>)"
  using assms by (simp add: fetch_url_execute_def ok_def Let_def del: decimal.simps)

text \<open>A page that is gone (404 Not Found), and a page that is there.\<close>

theorem fetch_url_by_status_witness:
  "fetch_url_execute (\<lambda>q. Inr \<lparr>status = 404, statusText = ''Not Found'', setCookie = [],
                                location = None, body = Inr ''gone''\<rparr>) ''https://a.example/x'' =
     Inr \<lparr>output_text = ''Failed to fetch: 404 Not Found'', isError = True\<rparr> \<and>
   fetch_url_execute (\<lambda>q. Inr \<lparr>status = 200, statusText = ''OK'', setCookie = [],
                                location = None, body = Inr ''# Page''\<rparr>) ''https://a.example/x'' =
     Inr \<lparr>output_text = ''# Page'', isError = False\<rparr>"
  using fetch_url_by_status [where fetch = "\<lambda>q. Inr \<lparr>status = 404, statusText = ''Not Found'',
            setCookie = [], location = None, body = Inr ''gone''\<rparr>"
          and u = "''https://a.example/x''" and t = "''gone''", OF refl]
    fetch_url_by_status [where fetch = "\<lambda>q. Inr \<lparr>status = 200, statusText = ''OK'',
            setCookie = [], location = None, body = Inr ''# Page''\<rparr>"
          and u = "''https://a.example/x''" and t = "''# Page''", OF refl]
  by simp

subsection \<open>Failures at the boundary of \<open>execute\<close>\<close>

text \<open>
  Claim C4 says that no tool operation throws across \<open>execute\<close>. \<open>github_search_code\<close>
  keeps to it: whatever the progress callback, the subprocess and the parser do, its
  \<open>execute\<close> returns a result.
\<close>

lemma github_execute_returns:
  "\<exists>out. github_search_code_execute String trim spawn parse onUpdate params = Inr out"
  by (auto simp add: github_search_code_execute_def split: sum.splits js_error.splits)

text \<open>
  \<open>fetch_url\<close> does not (claim C4): when \<open>fetch\<close> rejects, as it does when the network
  is down or the signal aborts, \<open>execute\<close> rejects with the same error and returns no
  result.
\<close>

theorem fetch_url_throws:
  "fetch_url_execute (\<lambda>q. Inl (Error ''fetch failed'')) ''https://a.example/x'' =
     Inl (Error ''fetch failed'')"
  by (simp add: fetch_url_execute_def)

subsection \<open>Kagi: the cookies of the session\<close>

lemma split_first: "(case split sep s of x # _ \<Rightarrow> x | [] \<Rightarrow> []) = takeWhile (\<lambda>x. x \<noteq> sep) s"
  by (induction s) (auto split: list.splits)

lemma authenticate_cookies:
  assumes "fetch (authenticate_request c token) = Inr response"
  shows "cookies (fst (authenticate fetch token c)) =
           map (takeWhile (\<lambda>x. x \<noteq> CHR '';'')) (setCookie response)"
  using assms
  by (simp add: authenticate_def Let_def split_first split: option.splits list.splits)

lemma search_request_carries: "carries_cookie (join ''; '' (cookies c)) (search_request c encoded)"
  by (simp add: carries_cookie_def search_request_def)

text \<open>
  Claim C5. Let \<open>authenticate(token)\<close> have returned without throwing, on the
  response \<open>response\<close>, and let \<open>h\<close> be the cookie values captured from its \<open>set-cookie\<close>
  headers (of each header the text before the first semicolon), joined with \<open>"; "\<close>
  in the order of capture. Then every later search on the client, whatever the
  query, the limit and the network, sends nothing but requests that carry \<open>h\<close> as
  their one \<open>Cookie\<close> header: its outcome is the same on a network that fails every
  other request. And it does send one: when the query can be encoded there is a
  request to the search page that carries \<open>h\<close>, and the outcome of the search is the
  error the network gives for that request, or what the page it gives holds.
  \<open>search\<close> assigns nothing to the client, so this is so at every later search.
\<close>

theorem search_carries_captured_cookies:
  assumes "authenticate fetch0 token c = (c', None)"
  shows "\<exists>response h.
     fetch0 (authenticate_request c token) = Inr response \<and>
     h = join ''; '' (map (takeWhile (\<lambda>x. x \<noteq> CHR '';'')) (setCookie response)) \<and>
     search rx trim enc fetch c' q bound =
       search rx trim enc (only_with_cookie h fetch) c' q bound \<and>
     (enc q = Inr encoded \<longrightarrow>
        (\<exists>r. carries_cookie h r \<and> req_url r = ''https://kagi.com/html/search?q='' @ encoded \<and>
           search rx trim enc fetch c' q bound =
             (case fetch r of
                Inl e \<Rightarrow> Inl e
              | Inr resp \<Rightarrow>
                  (case body resp of
                     Inl e \<Rightarrow> Inl e
                   | Inr html \<Rightarrow> Inr (collect rx trim bound (resultPattern rx html) [])))))"
proof (cases "fetch0 (authenticate_request c token)")
  case (Inl e)
  with assms show ?thesis by (simp add: authenticate_def)
next
  case (Inr response)
  define h where "h = join ''; '' (map (takeWhile (\<lambda>x. x \<noteq> CHR '';'')) (setCookie response))"
  from authenticate_cookies [where fetch = fetch0, OF Inr] assms
  have "cookies c' = map (takeWhile (\<lambda>x. x \<noteq> CHR '';'')) (setCookie response)" by simp
  then have c: "\<And>encoded. carries_cookie h (search_request c' encoded)"
    using search_request_carries [of c'] by (simp add: h_def)
  have 1: "search rx trim enc fetch c' q bound =
       search rx trim enc (only_with_cookie h fetch) c' q bound"
    by (cases "enc q") (simp_all add: search_def only_with_cookie_def c)
  have 2: "enc q = Inr encoded \<longrightarrow>
        (\<exists>r. carries_cookie h r \<and> req_url r = ''https://kagi.com/html/search?q='' @ encoded \<and>
           search rx trim enc fetch c' q bound =
             (case fetch r of
                Inl e \<Rightarrow> Inl e
              | Inr resp \<Rightarrow>
                  (case body resp of
                     Inl e \<Rightarrow> Inl e
                   | Inr html \<Rightarrow> Inr (collect rx trim bound (resultPattern rx html) []))))"
  proof
    assume e: "enc q = Inr encoded"
    have "req_url (search_request c' encoded) = ''https://kagi.com/html/search?q='' @ encoded"
      by (simp add: search_request_def)
    moreover have "search rx trim enc fetch c' q bound =
             (case fetch (search_request c' encoded) of
                Inl e \<Rightarrow> Inl e
              | Inr resp \<Rightarrow>
                  (case body resp of
                     Inl e \<Rightarrow> Inl e
                   | Inr html \<Rightarrow> Inr (collect rx trim bound (resultPattern rx html) [])))"
      using e by (simp add: search_def)
    ultimately show "\<exists>r. carries_cookie h r \<and>
           req_url r = ''https://kagi.com/html/search?q='' @ encoded \<and>
           search rx trim enc fetch c' q bound =
             (case fetch r of
                Inl e \<Rightarrow> Inl e
              | Inr resp \<Rightarrow>
                  (case body resp of
                     Inl e \<Rightarrow> Inl e
                   | Inr html \<Rightarrow> Inr (collect rx trim bound (resultPattern rx html) [])))"
      using c by blast
  qed
  show ?thesis using Inr 1 2 h_def by blast
qed

text \<open>
  Two cookies with attributes, and a network that gives the page with one result
  to the requests that carry the two name-value pairs joined with \<open>"; "\<close> and fails
  every other request: the search finds the result.
\<close>

lemma toy_auth:
  "authenticate toy_login ''tok'' new_KagiClient =
   (\<lparr>cookies = [''kagi_session=abc'', ''_kagi_search_=x''], sessionCookie = ''abc'',
     userAgent = ''Mozilla/5.0 (X11; Linux x86_64) AppleWebKit/537.36''\<rparr>, None)"
  by (simp add: authenticate_def toy_login_def new_KagiClient_def Let_def)

theorem search_carries_captured_cookies_witness:
  "search toy_patterns id Inr
     (only_with_cookie ''kagi_session=abc; _kagi_search_=x'' (answering (page ''TU'')))
     (fst (authenticate toy_login ''tok'' new_KagiClient)) ''cats'' 10 =
   Inr [\<lparr>title = ''t'', url = ''u'', snippet = ''''\<rparr>]"
proof -
  let ?c' = "\<lparr>cookies = [''kagi_session=abc'', ''_kagi_search_=x''], sessionCookie = ''abc'',
     userAgent = ''Mozilla/5.0 (X11; Linux x86_64) AppleWebKit/537.36''\<rparr>"
  from search_carries_captured_cookies [OF toy_auth, where enc = Inr and q = "''cats''"
      and encoded = "''cats''" and rx = toy_patterns and trim = id and bound = 10
      and fetch = "answering (page ''TU'')"]
  obtain response h where h: "toy_login (authenticate_request new_KagiClient ''tok'') = Inr response"
    "h = join ''; '' (map (takeWhile (\<lambda>x. x \<noteq> CHR '';'')) (setCookie response))"
    "search toy_patterns id Inr (answering (page ''TU'')) ?c' ''cats'' 10 =
       search toy_patterns id Inr (only_with_cookie h (answering (page ''TU''))) ?c' ''cats'' 10"
    by blast
  from h(1) have "setCookie response =
      [''kagi_session=abc; Path=/; HttpOnly'', ''_kagi_search_=x; Secure'']"
    by (auto simp add: toy_login_def)
  with h(2) have "h = ''kagi_session=abc; _kagi_search_=x''" by simp
  moreover have "search toy_patterns id Inr (answering (page ''TU'')) ?c' ''cats'' 10 =
      Inr [\<lparr>title = ''t'', url = ''u'', snippet = ''''\<rparr>]"
    by (simp add: search_def answering_def page_def toy_patterns_def)
  ultimately show ?thesis using h(3) by (simp add: toy_auth)
qed

subsection \<open>Kagi: blocks with a missing part\<close>

lemma collect_full:
  "\<not> real (length acc) < bound \<Longrightarrow> collect rx trim bound blocks acc = acc"
  by (cases blocks) simp_all

lemma collect_extends: "\<exists>more. collect rx trim bound blocks acc = acc @ more"
proof (induction blocks arbitrary: acc)
  case Nil
  then show ?case by simp
next
  case (Cons block rest)
  show ?case
  proof (cases "real (length acc) < bound")
    case False
    then show ?thesis by simp
  next
    case True
    show ?thesis
    proof (cases "titlePattern rx block")
      case None
      with True Cons.IH [of acc] show ?thesis by simp
    next
      case (Some t)
      show ?thesis
      proof (cases "urlPattern rx block")
        case None
        with True Some Cons.IH [of acc] show ?thesis by simp
      next
        case (Some u)
        let ?r = "\<lparr>title = trim (stripTags rx t), url = u,
                    snippet = (case snippetPattern rx block of
                                 Some snippetMatch \<Rightarrow> trim (stripTags rx snippetMatch)
                               | None \<Rightarrow> [])\<rparr>"
        from Cons.IH [of "acc @ [?r]"] obtain more
          where "collect rx trim bound rest (acc @ [?r]) = (acc @ [?r]) @ more" by blast
        with True \<open>titlePattern rx block = Some t\<close> Some show ?thesis by simp
      qed
    qed
  qed
qed

lemma collect_append:
  "collect rx trim bound (pre @ rest) acc = collect rx trim bound rest (collect rx trim bound pre acc)"
proof (induction pre arbitrary: acc)
  case Nil
  then show ?case by simp
next
  case (Cons block pre)
  show ?case
  proof (cases "real (length acc) < bound")
    case False
    then show ?thesis by (simp add: collect_full)
  next
    case True
    then show ?thesis using Cons.IH by simp
  qed
qed

text \<open>
  Claim C6, as the code has it. Take a block of the page that the loop reaches while
  fewer than \<open>limit\<close> results have been collected from the blocks before it (\<open>pre\<close>). If
  the block has a title and a URL and no snippet, its result is appended to what the
  earlier blocks gave, with the empty string as its snippet. If the block has no
  title or no URL, it is dropped: the list is what it would be without the block.
\<close>

theorem block_parsed_within_limit:
  assumes "real (length (collect rx trim bound pre [])) < bound"
  shows "(titlePattern rx block = Some t \<and> urlPattern rx block = Some u \<and>
          snippetPattern rx block = None \<longrightarrow>
            (\<exists>more. collect rx trim bound (pre @ block # rest) [] =
               collect rx trim bound pre [] @
               \<lparr>title = trim (stripTags rx t), url = u, snippet = []\<rparr> # more)) \<and>
         (titlePattern rx block = None \<or> urlPattern rx block = None \<longrightarrow>
            collect rx trim bound (pre @ block # rest) [] = collect rx trim bound (pre @ rest) [])"
proof (intro conjI impI)
  assume a: "titlePattern rx block = Some t \<and> urlPattern rx block = Some u \<and>
          snippetPattern rx block = None"
  let ?acc = "collect rx trim bound pre []"
  let ?r = "\<lparr>title = trim (stripTags rx t), url = u, snippet = []\<rparr>"
  from collect_extends [of rx trim bound rest "?acc @ [?r]"] obtain more
    where "collect rx trim bound rest (?acc @ [?r]) = (?acc @ [?r]) @ more" by blast
  then have "collect rx trim bound (pre @ block # rest) [] = ?acc @ ?r # more"
    using assms a by (simp add: collect_append)
  then show "\<exists>more. collect rx trim bound (pre @ block # rest) [] = ?acc @ ?r # more" ..
next
  assume "titlePattern rx block = None \<or> urlPattern rx block = None"
  then show "collect rx trim bound (pre @ block # rest) [] = collect rx trim bound (pre @ rest) []"
    using assms by (auto simp add: collect_append split: option.splits)
qed

text \<open>
  Claim C6 as stated fails past the limit. A page of two blocks searched with
  \<open>limit = 1\<close>: the second block has a title and a URL and no snippet, and its result
  is not in the list, because the loop stops once one result is there.
\<close>

theorem block_beyond_limit_dropped:
  "titlePattern toy_patterns ''TU'' = Some ''t'' \<and> urlPattern toy_patterns ''TU'' = Some ''u'' \<and>
   snippetPattern toy_patterns ''TU'' = None \<and>
   resultPattern toy_patterns ''TUS|TU'' = [''TUS'', ''TU''] \<and>
   search toy_patterns id Inr (answering (page ''TUS|TU'')) new_KagiClient ''q'' 1 =
     Inr [\<lparr>title = ''t'', url = ''u'', snippet = ''s''\<rparr>]"
  by (simp add: toy_patterns_def search_def page_def answering_def)

text \<open>
  Four blocks within a limit of 10: the second has no snippet and is kept with the
  empty snippet, the third has no title and is dropped.
\<close>

theorem block_parsed_within_limit_witness:
  "collect toy_patterns (\<lambda>s. s) 10 [''TUS'', ''TU'', ''US'', ''TUS''] [] =
     [\<lparr>title = ''t'', url = ''u'', snippet = ''s''\<rparr>,
      \<lparr>title = ''t'', url = ''u'', snippet = ''''\<rparr>,
      \<lparr>title = ''t'', url = ''u'', snippet = ''s''\<rparr>]"
proof -
  have l: "real (length (collect toy_patterns (\<lambda>s. s) 10 [''TUS''] [])) < 10"
    by (simp add: toy_patterns_def)
  have l2: "real (length (collect toy_patterns (\<lambda>s. s) 10 [''TUS'', ''TU''] [])) < 10"
    by (simp add: toy_patterns_def)
  from block_parsed_within_limit [OF l, of "''TU''" "''t''" "''u''" "[''US'', ''TUS'']"]
    block_parsed_within_limit [OF l2, of "''US''" _ _ "[''TUS'']"]
  show ?thesis by (simp add: toy_patterns_def)
qed

subsection \<open>GitHub code search: the limit\<close>

lemma search_args_expected:
  "gh_argv (search_args String params) =
   argv_with_limit (String (effective_limit params)) params"
  by (simp add: gh_argv_def search_args_def argv_with_limit_def flag_def effective_limit_def
      Let_def split: option.splits)

lemma runGhSearch_only:
  "runGhSearch spawn parse args = runGhSearch (only_argv ''gh'' (gh_argv args) spawn) parse args"
  by (simp add: runGhSearch_def only_argv_def)

text \<open>
  Claim C10. The effective limit is \<open>min(limit, 100)\<close> when the parameter \<open>limit\<close> is
  supplied and 10 when it is not, and it is never above 100. Whatever the
  parameters, the progress callback, the process table and the parser, \<open>execute\<close> of
  \<open>github_search_code\<close> starts no process but \<open>gh\<close> on the arguments in which the
  value after \<open>--limit\<close> is the text of the effective limit: its result is the same
  in a process table where nothing else can be started. And it does start that
  process when the progress callback does not throw: if the process exits with code
  0 and its output parses, the result is the formatted list; if the process cannot
  be started, the result is an error.
\<close>

theorem gh_limit_argument:
  "effective_limit (params\<lparr>limit := Some l\<rparr>) = min l 100 \<and>
   effective_limit (params\<lparr>limit := None\<rparr>) = 10 \<and>
   effective_limit params \<le> 100 \<and>
   github_search_code_execute String trim spawn parse onUpdate params =
     github_search_code_execute String trim
       (only_argv ''gh'' (argv_with_limit (String (effective_limit params)) params) spawn)
       parse onUpdate params \<and>
   (spawn ''gh'' (argv_with_limit (String (effective_limit params)) params) =
      Closed (Some 0) out err \<and> parse out = Some results \<longrightarrow>
      github_search_code_execute String trim spawn parse None params =
        Inr \<lparr>output_text = formatResults trim results, isError = False\<rparr>) \<and>
   (spawn ''gh'' (argv_with_limit (String (effective_limit params)) params) = SpawnError e \<longrightarrow>
      (\<exists>msg. github_search_code_execute String trim spawn parse None params =
         Inr \<lparr>output_text = msg, isError = True\<rparr>))"
proof (intro conjI impI)
  show "effective_limit (params\<lparr>limit := Some l\<rparr>) = min l 100"
    "effective_limit (params\<lparr>limit := None\<rparr>) = 10"
    by (simp_all add: effective_limit_def)
next
  show "effective_limit params \<le> 100"
    by (simp add: effective_limit_def split: option.splits)
next
  show "github_search_code_execute String trim spawn parse onUpdate params =
     github_search_code_execute String trim
       (only_argv ''gh'' (argv_with_limit (String (effective_limit params)) params) spawn)
       parse onUpdate params"
    using runGhSearch_only [of spawn parse "search_args String params"]
    by (cases onUpdate) (simp_all add: github_search_code_execute_def search_args_expected)
next
  assume "spawn ''gh'' (argv_with_limit (String (effective_limit params)) params) =
      Closed (Some 0) out err \<and> parse out = Some results"
  then show "github_search_code_execute String trim spawn parse None params =
        Inr \<lparr>output_text = formatResults trim results, isError = False\<rparr>"
    by (simp add: github_search_code_execute_def runGhSearch_def search_args_expected)
next
  assume "spawn ''gh'' (argv_with_limit (String (effective_limit params)) params) = SpawnError e"
  then show "\<exists>msg. github_search_code_execute String trim spawn parse None params =
         Inr \<lparr>output_text = msg, isError = True\<rparr>"
    by (cases e) (simp add: github_search_code_execute_def runGhSearch_def search_args_expected)
qed

text \<open>
  The search for TypeScript code: with a limit of 250 \<open>gh\<close> is asked for 100 results
  and the file it finds is reported; without a limit it is asked for 10.
\<close>

theorem gh_limit_argument_witness:
  "argv_with_limit (toy_String (effective_limit (toy_params (Some 250)))) (toy_params (Some 250)) =
     [''search'', ''code'', ''useState'', ''--language'', ''typescript'', ''--limit'', ''100'',
      ''--json'', ''path,repository,sha,url,textMatches''] \<and>
   github_search_code_execute toy_String id toy_gh toy_parse None (toy_params (Some 250)) =
     Inr \<lparr>output_text = formatResults id
            [\<lparr>path = ''a.ts'', repository_fullName = ''o/r'', result_url = ''u'',
              textMatches = None\<rparr>],
          isError = False\<rparr> \<and>
   argv_with_limit (toy_String (effective_limit (toy_params None))) (toy_params None) =
     [''search'', ''code'', ''useState'', ''--language'', ''typescript'', ''--limit'', ''10'',
      ''--json'', ''path,repository,sha,url,textMatches''] \<and>
   github_search_code_execute toy_String id toy_gh toy_parse None (toy_params None) =
     Inr \<lparr>output_text = ''No results found.'', isError = False\<rparr>"
proof -
  have a: "argv_with_limit (toy_String (effective_limit (toy_params (Some 250))))
       (toy_params (Some 250)) =
     [''search'', ''code'', ''useState'', ''--language'', ''typescript'', ''--limit'', ''100'',
      ''--json'', ''path,repository,sha,url,textMatches'']"
    "argv_with_limit (toy_String (effective_limit (toy_params None))) (toy_params None) =
     [''search'', ''code'', ''useState'', ''--language'', ''typescript'', ''--limit'', ''10'',
      ''--json'', ''path,repository,sha,url,textMatches'']"
    by (simp_all add: argv_with_limit_def toy_params_def toy_String_def flag_def
        effective_limit_def)
  have b: "toy_gh ''gh'' (argv_with_limit (toy_String (effective_limit (toy_params (Some 250))))
        (toy_params (Some 250))) = Closed (Some 0) ''one'' [] \<and>
    toy_parse ''one'' = Some [\<lparr>path = ''a.ts'', repository_fullName = ''o/r'',
      result_url = ''u'', textMatches = None\<rparr>]"
    "toy_gh ''gh'' (argv_with_limit (toy_String (effective_limit (toy_params None)))
        (toy_params None)) = Closed (Some 0) ''none'' [] \<and>
     toy_parse ''none'' = Some []"
    by (simp_all add: a toy_gh_def toy_parse_def)
  note t1 = gh_limit_argument [where params = "toy_params (Some 250)" and String = toy_String
      and trim = id and spawn = toy_gh and parse = toy_parse and out = "''one''" and err = "[]"]
  note t2 = gh_limit_argument [where params = "toy_params None" and String = toy_String
      and trim = id and spawn = toy_gh and parse = toy_parse and out = "''none''" and err = "[]"]
  have r1: "github_search_code_execute toy_String id toy_gh toy_parse None
        (toy_params (Some 250)) =
      Inr \<lparr>output_text = formatResults id
             [\<lparr>path = ''a.ts'', repository_fullName = ''o/r'', result_url = ''u'',
               textMatches = None\<rparr>],
           isError = False\<rparr>"
    using t1 b(1) by blast
  have r2: "github_search_code_execute toy_String id toy_gh toy_parse None (toy_params None) =
      Inr \<lparr>output_text = formatResults id [], isError = False\<rparr>"
    using t2 b(2) by blast
  have "formatResults id [] = ''No results found.''" by (simp add: formatResults_def)
  with a r1 r2 show ?thesis by simp
qed

subsection \<open>Session exec: the timeout\<close>

lemma data_steps:
  assumes "list_all is_data pre"
  shows "timeoutId (fold (child_step String timeout) pre s) = timeoutId s \<and>
         settled (fold (child_step String timeout) pre s) = settled s \<and>
         killed (fold (child_step String timeout) pre s) = killed s"
  using assms
proof (induction pre arbitrary: s)
  case Nil
  then show ?case by simp
next
  case (Cons ev pre)
  then show ?case by (cases ev) simp_all
qed

lemma settled_stays:
  assumes "settled s = Some r"
  shows "settled (fold (child_step String timeout) evs s) = Some r"
  using assms
proof (induction evs arbitrary: s)
  case Nil
  then show ?case by simp
next
  case (Cons ev evs)
  have "settled (child_step String timeout ev s) = Some r"
    using Cons.prems by (cases ev) (simp_all add: settle_def Let_def)
  then show ?case using Cons.IH by simp
qed

lemma no_timer_no_kill:
  assumes "\<not> timeoutId s"
  shows "killed (fold (child_step String timeout) evs s) = killed s"
  using assms
proof (induction evs arbitrary: s)
  case Nil
  then show ?case by simp
next
  case (Cons ev evs)
  have "\<not> timeoutId (child_step String timeout ev s) \<and>
        killed (child_step String timeout ev s) = killed s"
    using Cons.prems by (cases ev) (simp_all add: settle_def Let_def split: option.splits)
  then show ?case using Cons.IH [of "child_step String timeout ev s"] by simp
qed

text \<open>
  When the child closes before the timeout has elapsed, the timer is cleared: the
  promise is settled from the exit code and the output collected until then, and no
  signal is sent, whatever comes afterwards.
\<close>

lemma data_collected:
  assumes "list_all is_data pre"
  shows "child_stdout (fold (child_step String timeout) pre s) =
           child_stdout s @ concat (map (\<lambda>ev. case ev of StdoutData x \<Rightarrow> x | _ \<Rightarrow> []) pre) \<and>
         child_stderr (fold (child_step String timeout) pre s) =
           child_stderr s @ concat (map (\<lambda>ev. case ev of StderrData x \<Rightarrow> x | _ \<Rightarrow> []) pre)"
  using assms
proof (induction pre arbitrary: s)
  case Nil
  then show ?case by simp
next
  case (Cons ev pre)
  then show ?case by (cases ev) simp_all
qed

lemma exec_close_first:
  assumes "spawn ''pexpect-cli'' [session_id] code = pre @ Close c # post"
    and "list_all is_data pre"
    and "outs = concat (map (\<lambda>ev. case ev of StdoutData x \<Rightarrow> x | _ \<Rightarrow> []) pre)"
    and "errs = concat (map (\<lambda>ev. case ev of StderrData x \<Rightarrow> x | _ \<Rightarrow> []) pre)"
  shows "killed (execInSession String spawn session_id code timeout) = [] \<and>
         settled (execInSession String spawn session_id code timeout) =
           Some (if c \<noteq> Some 0 \<and> errs \<noteq> [] then Inl (Error errs) else Inr outs)"
proof -
  define s0 where "s0 = \<lparr>child_stdout = [], child_stderr = [],
        timeoutId = (case timeout of Some t \<Rightarrow> t \<noteq> 0 | None \<Rightarrow> False),
        settled = None, killed = []\<rparr>"
  define s1 where "s1 = fold (child_step String timeout) pre s0"
  define s2 where "s2 = child_step String timeout (Close c) s1"
  have e: "execInSession String spawn session_id code timeout =
      fold (child_step String timeout) post s2"
    by (simp add: execInSession_def assms(1) s0_def s1_def s2_def)
  from data_steps [OF assms(2), of String timeout s0]
  have 1: "settled s1 = None" "killed s1 = []"
    by (simp_all add: s1_def s0_def)
  from data_collected [OF assms(2), of String timeout s0]
  have c: "child_stdout s1 = outs" "child_stderr s1 = errs"
    by (simp_all add: s1_def s0_def assms(3,4))
  from 1 c have 2: "\<not> timeoutId s2" "killed s2 = []"
    "settled s2 = Some (if c \<noteq> Some 0 \<and> errs \<noteq> [] then Inl (Error errs) else Inr outs)"
    by (simp_all add: s2_def settle_def Let_def)
  show ?thesis
    unfolding e using settled_stays [OF 2(3)] no_timer_no_kill [OF 2(1)] 2(2) by simp
qed





end
